theory Spec2Isabelle
  imports Complex_Main "HOL-Library.Word"
begin

unbundle bit_operations_syntax

section \<open>Data model\<close>

text \<open>
  The types of \<^verbatim>\<open>src/types/index.ts\<close>. A JavaScript \<^verbatim>\<open>Int16Array\<close>, \<^verbatim>\<open>Int32Array\<close> and
  \<^verbatim>\<open>Uint8Array\<close> are lists of 16-, 32- and 8-bit words; a \<^verbatim>\<open>number\<close> that carries a
  score, a percentage or an audio sample is a real (NaN and the infinities are left out);
  a valid \<^verbatim>\<open>Date\<close> is its number of milliseconds since the epoch. Field \<^verbatim>\<open>id\<close> is
  \<open>profileId\<close> here, and the two \<^verbatim>\<open>error\<close> fields and the recorder's own
  \<^verbatim>\<open>isRecording\<close> carry a prefix, since record fields share one name space.
\<close>

type_synonym int16 = "16 word"
type_synonym int32 = "32 word"
type_synonym byte = "8 word"
type_synonym date = int

record SpeakerProfile =
  profileId :: string
  name :: string
  voiceprint :: "int32 list"
  createdAt :: date
  lastUpdated :: date

record EnrollmentState =
  isEnrolling :: bool
  isRecording :: bool
  progress :: real
  enrollError :: "string option"
  success :: bool

record RecognitionState =
  isRecognizing :: bool
  isListening :: bool
  identifiedSpeaker :: "string option"
  confidence :: real
  recogError :: "string option"

text \<open>The part of the recorder hook's state that \<^verbatim>\<open>stopRecording\<close> writes.\<close>

record AudioRecorderState =
  recIsRecording :: bool
  recAudioLevel :: real

text \<open>
  The handles of the external engine. Of the profiler only \<^verbatim>\<open>minEnrollSamples\<close> is read,
  of the recognizer only \<^verbatim>\<open>frameLength\<close>, which may be absent.
\<close>

record Profiler =
  minEnrollSamples :: nat

record Recognizer =
  frameLength :: "nat option"

record EagleService =
  profiler :: "Profiler option"
  recognizer :: "Recognizer option"
  isInitialized :: bool
  enrolledProfiles :: "SpeakerProfile list"
  audioBuffer :: "int16 list"
  minBufferSize :: nat

record EnrollResult =
  percentage :: real
  feedback :: string

record RecognitionResult =
  speakerIndex :: int
  resultConfidence :: real

section \<open>The profile store (\<^verbatim>\<open>src/utils/storage.ts\<close>)\<close>

text \<open>
  What the object store holds: the profile with its voiceprint as a plain array of numbers
  and its dates as ISO strings. \<^verbatim>\<open>Date.prototype.toISOString\<close> and the \<^verbatim>\<open>Date\<close>
  constructor belong to the JavaScript runtime; the ISO text of a valid date is
  represented by the millisecond count it denotes.
\<close>

datatype isoString = ISO int

record StoredProfile =
  storedId :: string
  storedName :: string
  storedVoiceprint :: "int list"
  storedCreatedAt :: isoString
  storedLastUpdated :: isoString

text \<open>
  The IndexedDB object store \<^verbatim>\<open>speakerProfiles\<close>: key path \<^verbatim>\<open>id\<close>, a unique index on
  \<^verbatim>\<open>name\<close>. \<open>available\<close> is false when the database cannot be opened.
\<close>

record IDB =
  objects :: "StoredProfile list"
  available :: bool

definition toISOString :: "date \<Rightarrow> isoString" where
  "toISOString d = ISO d"

fun newDate :: "isoString \<Rightarrow> date" where
  "newDate (ISO d) = d"

text \<open>\<^verbatim>\<open>Array.from(profile.voiceprint)\<close> and \<^verbatim>\<open>new Int32Array(result.voiceprint)\<close>.\<close>

definition arrayFrom :: "int32 list \<Rightarrow> int list" where
  "arrayFrom v = map sint v"

definition newInt32Array :: "int list \<Rightarrow> int32 list" where
  "newInt32Array xs = map word_of_int xs"

definition profileToStore :: "SpeakerProfile \<Rightarrow> StoredProfile" where
  "profileToStore p =
     \<lparr> storedId = profileId p, storedName = name p,
       storedVoiceprint = arrayFrom (voiceprint p),
       storedCreatedAt = toISOString (createdAt p),
       storedLastUpdated = toISOString (lastUpdated p) \<rparr>"

definition profileFromStore :: "StoredProfile \<Rightarrow> SpeakerProfile" where
  "profileFromStore r =
     \<lparr> profileId = storedId r, name = storedName r,
       voiceprint = newInt32Array (storedVoiceprint r),
       createdAt = newDate (storedCreatedAt r),
       lastUpdated = newDate (storedLastUpdated r) \<rparr>"

text \<open>
  \<^verbatim>\<open>store.put\<close>: replaces the record with the same key or adds a new one; the request
  fails when another record already has the same name (the unique index).
\<close>

fun upsert :: "StoredProfile \<Rightarrow> StoredProfile list \<Rightarrow> StoredProfile list" where
  "upsert r [] = [r]"
| "upsert r (x # xs) = (if storedId x = storedId r then r # xs else x # upsert r xs)"

definition nameConflict :: "StoredProfile \<Rightarrow> StoredProfile list \<Rightarrow> bool" where
  "nameConflict r objs = list_ex (\<lambda>x. storedName x = storedName r \<and> storedId x \<noteq> storedId r) objs"

definition saveSpeakerProfile :: "SpeakerProfile \<Rightarrow> IDB \<Rightarrow> string + IDB" where
  "saveSpeakerProfile p db =
     (if \<not> available db then Inl ''Failed to open IndexedDB''
      else if nameConflict (profileToStore p) (objects db)
           then Inl ''Failed to save speaker profile''
           else Inr (db\<lparr>objects := upsert (profileToStore p) (objects db)\<rparr>))"

definition getSpeakerProfile :: "string \<Rightarrow> IDB \<Rightarrow> string + SpeakerProfile option" where
  "getSpeakerProfile i db =
     (if \<not> available db then Inl ''Failed to open IndexedDB''
      else Inr (map_option profileFromStore (find (\<lambda>x. storedId x = i) (objects db))))"

definition getSpeakerByName :: "string \<Rightarrow> IDB \<Rightarrow> string + SpeakerProfile option" where
  "getSpeakerByName n db =
     (if \<not> available db then Inl ''Failed to open IndexedDB''
      else Inr (map_option profileFromStore (find (\<lambda>x. storedName x = n) (objects db))))"

section \<open>Voiceprint byte packing (\<^verbatim>\<open>src/utils/eagle.ts\<close>)\<close>

text \<open>\<^verbatim>\<open>(bytes[0] << 24) | (bytes[1] << 16) | (bytes[2] << 8) | bytes[3]\<close>\<close>

definition packWord :: "byte \<Rightarrow> byte \<Rightarrow> byte \<Rightarrow> byte \<Rightarrow> int32" where
  "packWord b0 b1 b2 b3 =
     push_bit 24 (ucast b0) OR push_bit 16 (ucast b1) OR push_bit 8 (ucast b2) OR ucast b3"

text \<open>\<^verbatim>\<open>profileBytes[i] || 0\<close>: a read past the end is \<^verbatim>\<open>undefined\<close>, hence 0.\<close>

definition byteAt :: "byte list \<Rightarrow> nat \<Rightarrow> byte" where
  "byteAt bs i = (if i < length bs then bs ! i else 0)"

text \<open>The loop of \<^verbatim>\<open>exportProfile\<close>, \<^verbatim>\<open>for (let i = 0; i < profileBytes.length; i += 4)\<close>.\<close>

function packLoop :: "byte list \<Rightarrow> nat \<Rightarrow> int32 list \<Rightarrow> int32 list" where
  "packLoop profileBytes i int32Array =
     (if i < length profileBytes
      then packLoop profileBytes (i + 4)
             (int32Array[i div 4 :=
                packWord (byteAt profileBytes i) (byteAt profileBytes (i + 1))
                         (byteAt profileBytes (i + 2)) (byteAt profileBytes (i + 3))])
      else int32Array)"
  by pat_completeness auto
termination
  by (relation "measure (\<lambda>(pb, i, arr). length pb - i)") auto

text \<open>\<^verbatim>\<open>new Int32Array(Math.ceil(profileBytes.length / 4))\<close>, then the loop.\<close>

definition packVoiceprint :: "byte list \<Rightarrow> int32 list" where
  "packVoiceprint profileBytes =
     packLoop profileBytes 0 (replicate ((length profileBytes + 3) div 4) 0)"

text \<open>
  The four bytes that \<^verbatim>\<open>initializeRecognizer\<close> takes from a value:
  \<^verbatim>\<open>(value >>> 24) & 0xFF\<close>, \<^verbatim>\<open>(value >>> 16) & 0xFF\<close>, \<^verbatim>\<open>(value >>> 8) & 0xFF\<close>,
  \<^verbatim>\<open>value & 0xFF\<close>.
\<close>

definition byte0 :: "int32 \<Rightarrow> byte" where
  "byte0 v = ucast (drop_bit 24 v AND 0xFF)"

definition byte1 :: "int32 \<Rightarrow> byte" where
  "byte1 v = ucast (drop_bit 16 v AND 0xFF)"

definition byte2 :: "int32 \<Rightarrow> byte" where
  "byte2 v = ucast (drop_bit 8 v AND 0xFF)"

definition byte3 :: "int32 \<Rightarrow> byte" where
  "byte3 v = ucast (v AND 0xFF)"

function unpackLoop :: "int32 list \<Rightarrow> nat \<Rightarrow> byte list \<Rightarrow> byte list" where
  "unpackLoop int32Array i uint8Array =
     (if i < length int32Array
      then unpackLoop int32Array (i + 1)
             (uint8Array[i * 4 := byte0 (int32Array ! i),
                         i * 4 + 1 := byte1 (int32Array ! i),
                         i * 4 + 2 := byte2 (int32Array ! i),
                         i * 4 + 3 := byte3 (int32Array ! i)])
      else uint8Array)"
  by pat_completeness auto
termination
  by (relation "measure (\<lambda>(arr, i, out). length arr - i)") auto

definition unpackVoiceprint :: "int32 list \<Rightarrow> byte list" where
  "unpackVoiceprint int32Array =
     unpackLoop int32Array 0 (replicate (length int32Array * 4) 0)"

text \<open>
  The profiles that \<^verbatim>\<open>initializeRecognizer\<close> hands to \<^verbatim>\<open>Eagle.create\<close>: the bytes of
  each stored voiceprint, \<^verbatim>\<open>profiles.map(profile => ...)\<close>.
\<close>

definition eagleProfiles :: "SpeakerProfile list \<Rightarrow> byte list list" where
  "eagleProfiles profiles = map (\<lambda>profile. unpackVoiceprint (voiceprint profile)) profiles"

text \<open>The number of zero bytes that packing adds: up to the next multiple of four.\<close>

definition padLen :: "nat \<Rightarrow> nat" where
  "padLen n = ((n + 3) div 4) * 4 - n"

definition byteSel :: "nat \<Rightarrow> int32 \<Rightarrow> byte" where
  "byteSel r v = (if r = 0 then byte0 v else if r = 1 then byte1 v
                  else if r = 2 then byte2 v else byte3 v)"

section \<open>Audio capture (\<^verbatim>\<open>src/hooks/useAudioRecorder.ts\<close>)\<close>







section \<open>The engine and the observable effects\<close>

text \<open>
  Calls that leave the program are recorded in order: the calls into the engine, the
  store's \<^verbatim>\<open>put\<close>, the recorder's \<^verbatim>\<open>stopRecording\<close>, the callbacks of the
  caller, and the timer that \<^verbatim>\<open>completeEnrollment\<close> sets for \<^verbatim>\<open>resetForm\<close>.
\<close>

datatype event =
    ProfilerEnroll "int16 list"
  | ProfilerExport
  | ProfilerReset
  | RecognizerProcess "int16 list"
  | StorePut StoredProfile
  | StopRecording
  | OnError string
  | OnEnrollmentComplete SpeakerProfile
  | OnSpeakerIdentified string real
  | ScheduleResetForm

text \<open>
  The engine is a black box with state of its own: what a call returns, or the error it
  throws (\<open>Inl\<close>, the text that \<^verbatim>\<open>String(error)\<close> gives), is a function of the calls
  made so far and of the argument. The feedback of an enroll result is taken as the string
  that \<^verbatim>\<open>enrollAudio\<close> returns for it.
\<close>

record Engine =
  enrollResponse :: "event list \<Rightarrow> int16 list \<Rightarrow> string + EnrollResult"
  exportResponse :: "event list \<Rightarrow> string + byte list"
  processResponse :: "event list \<Rightarrow> int16 list \<Rightarrow> string + real list"

text \<open>
  What \<^verbatim>\<open>completeEnrollment\<close> reads from the clock and the random source:
  \<^verbatim>\<open>Date.now()\<close>, \<^verbatim>\<open>Math.random().toString(36).substr(2, 9)\<close> and the two
  \<^verbatim>\<open>new Date()\<close>.
\<close>

record Fresh =
  dateNow :: nat
  randomSuffix :: string
  createdNow :: date
  updatedNow :: date

text \<open>
  The singletons \<^verbatim>\<open>eagleService\<close> and \<^verbatim>\<open>speakerStorage\<close>, the state of the two
  components and of the recorder, which callbacks the caller passed, and the effects so
  far. A handler call is modelled from its start to its end. The recorder does not wait
  for a handler, so in the program a call may start while an earlier one is waiting for
  the engine; what is stated below about one call does not say how overlapping calls
  interleave.
\<close>

record App =
  service :: EagleService
  storage :: IDB
  speakerName :: string
  enrollmentState :: EnrollmentState
  recognitionState :: RecognitionState
  recorder :: AudioRecorderState
  onErrorProvided :: bool
  onEnrollmentCompleteProvided :: bool
  onSpeakerIdentifiedProvided :: bool
  events :: "event list"

definition emit :: "event \<Rightarrow> App \<Rightarrow> App" where
  "emit e a = a\<lparr>events := events a @ [e]\<rparr>"

text \<open>The effects of a call: the events added between two states.\<close>

definition newEvents :: "App \<Rightarrow> App \<Rightarrow> event list" where
  "newEvents a a' = drop (length (events a)) (events a')"

section \<open>\<^verbatim>\<open>EagleService\<close> (\<^verbatim>\<open>src/utils/eagle.ts\<close>)\<close>

definition enrollAudio :: "Engine \<Rightarrow> App \<Rightarrow> int16 list \<Rightarrow> (string + EnrollResult) \<times> App" where
  "enrollAudio eng a pcmData =
     (if \<not> isInitialized (service a)
      then (Inl ''Profiler not initialized. Call initializeProfiler() first.'', a)
      else
        let newBuffer = audioBuffer (service a) @ pcmData;
            a1 = a\<lparr>service := (service a)\<lparr>audioBuffer := newBuffer\<rparr>\<rparr>
        in if length newBuffer < minBufferSize (service a1)
           then (Inr \<lparr>percentage = 0, feedback = ''COLLECTING_AUDIO''\<rparr>, a1)
           else (case profiler (service a1) of
                   None \<Rightarrow> (Inl ''Enrollment failed: Error: Eagle profiler not initialized'', a1)
                 | Some p \<Rightarrow>
                     (case enrollResponse eng (events a1) newBuffer of
                        Inl e \<Rightarrow>
                          (Inl (''Enrollment failed: '' @ e), emit (ProfilerEnroll newBuffer) a1)
                      | Inr result \<Rightarrow>
                          (Inr \<lparr>percentage = percentage result, feedback = feedback result\<rparr>,
                           (emit (ProfilerEnroll newBuffer) a1)
                             \<lparr>service := (service a1)\<lparr>audioBuffer := []\<rparr>\<rparr>))))"

definition exportProfile :: "Engine \<Rightarrow> App \<Rightarrow> (string + int32 list) \<times> App" where
  "exportProfile eng a =
     (if \<not> isInitialized (service a)
      then (Inl ''Profiler not initialized. Call initializeProfiler() first.'', a)
      else (case profiler (service a) of
              None \<Rightarrow> (Inl ''Profile export failed: Error: Eagle profiler not initialized'', a)
            | Some p \<Rightarrow>
                (case exportResponse eng (events a) of
                   Inl e \<Rightarrow> (Inl (''Profile export failed: '' @ e), emit ProfilerExport a)
                 | Inr profileBytes \<Rightarrow>
                     (Inr (packVoiceprint profileBytes), emit ProfilerExport a))))"

definition resetProfiler :: "App \<Rightarrow> App" where
  "resetProfiler a =
     (let a1 = (case profiler (service a) of None \<Rightarrow> a | Some p \<Rightarrow> emit ProfilerReset a)
      in a1\<lparr>service := (service a1)\<lparr>audioBuffer := []\<rparr>\<rparr>)"

definition clearAudioBuffer :: "App \<Rightarrow> App" where
  "clearAudioBuffer a = a\<lparr>service := (service a)\<lparr>audioBuffer := []\<rparr>\<rparr>"

text \<open>
  The field initialisers of the class, and what \<^verbatim>\<open>initializeProfiler\<close> and
  \<^verbatim>\<open>initializeRecognizer\<close> leave in the service once the engine has created the
  profiler or the recognizer.
\<close>

definition newEagleService :: EagleService where
  "newEagleService =
     \<lparr> profiler = None, recognizer = None, isInitialized = False, enrolledProfiles = [],
       audioBuffer = [], minBufferSize = 16000 \<rparr>"

definition profilerInitialized :: "Profiler \<Rightarrow> EagleService \<Rightarrow> EagleService" where
  "profilerInitialized p s =
     s\<lparr>profiler := Some p,
       minBufferSize := (if minEnrollSamples p \<noteq> 0
                         then max (minBufferSize s) (minEnrollSamples p)
                         else minBufferSize s),
       isInitialized := True\<rparr>"

definition recognizerInitialized ::
  "Recognizer \<Rightarrow> SpeakerProfile list \<Rightarrow> EagleService \<Rightarrow> EagleService" where
  "recognizerInitialized r profiles s =
     s\<lparr>enrolledProfiles := profiles, recognizer := Some r, isInitialized := True\<rparr>"

text \<open>\<^verbatim>\<open>this.recognizer.frameLength || 512\<close>\<close>

definition expectedFrameLength :: "Recognizer \<Rightarrow> nat" where
  "expectedFrameLength r =
     (case frameLength r of None \<Rightarrow> 512 | Some n \<Rightarrow> (if n = 0 then 512 else n))"

text \<open>
  The length check of \<^verbatim>\<open>recognizeAudio\<close>: \<^verbatim>\<open>pcmData.slice(0, expectedFrameLength)\<close>
  for a longer frame; a new zero-filled \<^verbatim>\<open>Int16Array(expectedFrameLength)\<close> with the
  frame set at its start for a shorter one.
\<close>

definition adjustFrame :: "nat \<Rightarrow> int16 list \<Rightarrow> int16 list" where
  "adjustFrame expected pcmData =
     (if length pcmData \<noteq> expected
      then (if length pcmData > expected
            then take expected pcmData
            else pcmData @ replicate (expected - length pcmData) 0)
      else pcmData)"

text \<open>
  The loop over the scores, from index \<open>i\<close> on, with the locals \<^verbatim>\<open>maxScore\<close> and
  \<^verbatim>\<open>speakerIndex\<close> (here \<open>bestIndex\<close>) as they stand.
\<close>

fun selectBest :: "real list \<Rightarrow> nat \<Rightarrow> real \<Rightarrow> int \<Rightarrow> real \<times> int" where
  "selectBest [] i maxScore bestIndex = (maxScore, bestIndex)"
| "selectBest (score # scores) i maxScore bestIndex =
     (if score > maxScore
      then selectBest scores (i + 1) score (int i)
      else selectBest scores (i + 1) maxScore bestIndex)"

definition confidenceThreshold :: real where
  "confidenceThreshold = 0.5"

definition decide :: "real list \<Rightarrow> RecognitionResult" where
  "decide scores =
     (case selectBest scores 0 (- 1) (- 1) of
        (maxScore, bestIndex) \<Rightarrow>
          \<lparr> speakerIndex = (if maxScore < confidenceThreshold then - 1 else bestIndex),
            resultConfidence = maxScore \<rparr>)"

definition recognizeAudio ::
  "Engine \<Rightarrow> App \<Rightarrow> int16 list \<Rightarrow> (string + RecognitionResult) \<times> App" where
  "recognizeAudio eng a pcmData =
     (if \<not> isInitialized (service a)
      then (Inl ''Recognizer not initialized. Call initializeRecognizer() first.'', a)
      else (case recognizer (service a) of
              None \<Rightarrow> (Inl ''Recognition failed: Error: Eagle recognizer not initialized'', a)
            | Some r \<Rightarrow>
                (let frame = adjustFrame (expectedFrameLength r) pcmData in
                 case processResponse eng (events a) frame of
                   Inl e \<Rightarrow> (Inl (''Recognition failed: '' @ e), emit (RecognizerProcess frame) a)
                 | Inr scores \<Rightarrow> (Inr (decide scores), emit (RecognizerProcess frame) a))))"

definition getSpeakerName :: "EagleService \<Rightarrow> int \<Rightarrow> string" where
  "getSpeakerName s idx =
     (if idx \<ge> 0 \<and> idx < int (length (enrolledProfiles s))
      then name (enrolledProfiles s ! nat idx)
      else ''Unknown'')"

section \<open>The recorder's \<^verbatim>\<open>stopRecording\<close> and the error callback\<close>

definition stopRecording :: "App \<Rightarrow> App" where
  "stopRecording a =
     emit StopRecording (a\<lparr>recorder := (recorder a)\<lparr>recIsRecording := False, recAudioLevel := 0\<rparr>\<rparr>)"

text \<open>\<^verbatim>\<open>if (onError) onError(errorMessage)\<close>\<close>

definition notifyError :: "string \<Rightarrow> App \<Rightarrow> App" where
  "notifyError errorMessage a = (if onErrorProvided a then emit (OnError errorMessage) a else a)"

section \<open>\<^verbatim>\<open>SpeakerEnrollment\<close> (\<^verbatim>\<open>src/components/SpeakerEnrollment.tsx\<close>)\<close>

text \<open>
  The id of a new profile,
  \<^verbatim>\<open>`speaker_${Date.now()}_${Math.random().toString(36).substr(2, 9)}`\<close>: the clock in decimal.
\<close>

definition digitChar :: "nat \<Rightarrow> char" where
  "digitChar d = ''0123456789'' ! d"

function showNat :: "nat \<Rightarrow> string" where
  "showNat n = (if n < 10 then [digitChar n] else showNat (n div 10) @ [digitChar (n mod 10)])"
  by pat_completeness auto
termination
  by (relation "measure (\<lambda>n. n)") auto

definition speakerId :: "nat \<Rightarrow> string \<Rightarrow> string" where
  "speakerId now suffix = ''speaker_'' @ showNat now @ ''_'' @ suffix"

text \<open>
  The \<^verbatim>\<open>catch\<close> block, the same text in \<^verbatim>\<open>handleAudioData\<close> and in
  \<^verbatim>\<open>completeEnrollment\<close>: the state update, \<^verbatim>\<open>stopRecording()\<close>, the error
  callback. What is thrown there is always an \<^verbatim>\<open>Error\<close>, so the message is its own.
\<close>

definition enrollmentFailed :: "string \<Rightarrow> App \<Rightarrow> App" where
  "enrollmentFailed errorMessage a =
     notifyError errorMessage
       (stopRecording
          (a\<lparr>enrollmentState := (enrollmentState a)
               \<lparr>enrollError := Some errorMessage, isEnrolling := False, isRecording := False\<rparr>\<rparr>))"

definition newProfile :: "Fresh \<Rightarrow> string \<Rightarrow> int32 list \<Rightarrow> SpeakerProfile" where
  "newProfile fr speaker vp =
     \<lparr> profileId = speakerId (dateNow fr) (randomSuffix fr), name = speaker, voiceprint = vp,
       createdAt = createdNow fr, lastUpdated = updatedNow fr \<rparr>"

text \<open>A \<open>StorePut\<close> event stands for a \<^verbatim>\<open>put\<close> that the store carried out.\<close>

definition completeEnrollment :: "Engine \<Rightarrow> Fresh \<Rightarrow> App \<Rightarrow> App" where
  "completeEnrollment eng fr a =
     (case exportProfile eng a of
        (Inl errorMessage, a1) \<Rightarrow> enrollmentFailed errorMessage a1
      | (Inr vp, a1) \<Rightarrow>
          (let profile = newProfile fr (speakerName a1) vp in
           case saveSpeakerProfile profile (storage a1) of
             Inl errorMessage \<Rightarrow> enrollmentFailed errorMessage a1
           | Inr db \<Rightarrow>
               (let a2 = emit (StorePut (profileToStore profile)) (a1\<lparr>storage := db\<rparr>);
                    a3 = a2\<lparr>enrollmentState := (enrollmentState a2)
                            \<lparr>success := True, isEnrolling := False, isRecording := False\<rparr>\<rparr>;
                    a4 = stopRecording a3;
                    a5 = (if onEnrollmentCompleteProvided a4
                          then emit (OnEnrollmentComplete profile) a4 else a4)
                in emit ScheduleResetForm a5)))"

definition enrollHandleAudioData :: "Engine \<Rightarrow> Fresh \<Rightarrow> App \<Rightarrow> int16 list \<Rightarrow> App" where
  "enrollHandleAudioData eng fr a audioData =
     (if \<not> isEnrolling (enrollmentState a) then a
      else (case enrollAudio eng a audioData of
              (Inl errorMessage, a1) \<Rightarrow> enrollmentFailed errorMessage a1
            | (Inr result, a1) \<Rightarrow>
                (let a2 = a1\<lparr>enrollmentState := (enrollmentState a1)
                            \<lparr>progress := percentage result, enrollError := None\<rparr>\<rparr>
                 in if percentage result \<ge> 100 then completeEnrollment eng fr a2 else a2)))"

definition stopEnrollment :: "App \<Rightarrow> App" where
  "stopEnrollment a =
     resetProfiler
       (stopRecording
          (a\<lparr>enrollmentState := (enrollmentState a)\<lparr>isEnrolling := False, isRecording := False\<rparr>\<rparr>))"

definition resetForm :: "App \<Rightarrow> App" where
  "resetForm a =
     resetProfiler
       (a\<lparr>speakerName := [],
          enrollmentState := \<lparr>isEnrolling = False, isRecording = False, progress = 0,
                               enrollError = None, success = False\<rparr>\<rparr>)"

section \<open>\<^verbatim>\<open>SpeakerRecognition\<close> (\<^verbatim>\<open>src/components/SpeakerRecognition.tsx\<close>)\<close>

definition recogHandleAudioData :: "Engine \<Rightarrow> App \<Rightarrow> int16 list \<Rightarrow> App" where
  "recogHandleAudioData eng a audioData =
     (if \<not> isRecognizing (recognitionState a) then a
      else (case recognizeAudio eng a audioData of
              (Inl errorMessage, a1) \<Rightarrow>
                notifyError errorMessage
                  (a1\<lparr>recognitionState := (recognitionState a1)\<lparr>recogError := Some errorMessage\<rparr>\<rparr>)
            | (Inr result, a1) \<Rightarrow>
                (let speaker = getSpeakerName (service a1) (speakerIndex result);
                     a2 = a1\<lparr>recognitionState := (recognitionState a1)
                            \<lparr>identifiedSpeaker := Some speaker,
                             confidence := resultConfidence result,
                             recogError := None\<rparr>\<rparr>
                 in if onSpeakerIdentifiedProvided a2 \<and> speaker \<noteq> ''Unknown''
                    then emit (OnSpeakerIdentified speaker (resultConfidence result)) a2
                    else a2)))"

definition stopRecognition :: "App \<Rightarrow> App" where
  "stopRecognition a =
     stopRecording
       (a\<lparr>recognitionState := (recognitionState a)
            \<lparr>isRecognizing := False, isListening := False,
             identifiedSpeaker := None, confidence := 0\<rparr>\<rparr>)"

definition recognizeFrames :: "Engine \<Rightarrow> App \<Rightarrow> int16 list list \<Rightarrow> App" where
  "recognizeFrames eng a frames = foldl (recogHandleAudioData eng) a frames"

section \<open>Example states\<close>

text \<open>
  Concrete sessions on which the theorems below are instantiated: the service and the
  components as \<^verbatim>\<open>startEnrollment\<close> leaves them for a speaker named Alice, and as
  \<^verbatim>\<open>startRecognition\<close> leaves them with the profiles of Alice and Bob loaded; engines
  that answer every call the same way.
\<close>

definition engineWith ::
  "(string + EnrollResult) \<Rightarrow> (string + byte list) \<Rightarrow> (string + real list) \<Rightarrow> Engine" where
  "engineWith e x p =
     \<lparr> enrollResponse = (\<lambda>history buffer. e), exportResponse = (\<lambda>history. x),
       processResponse = (\<lambda>history frame. p) \<rparr>"

definition idleEnrollment :: EnrollmentState where
  "idleEnrollment =
     \<lparr> isEnrolling = False, isRecording = False, progress = 0, enrollError = None,
       success = False \<rparr>"

definition idleRecognition :: RecognitionState where
  "idleRecognition =
     \<lparr> isRecognizing = False, isListening = False, identifiedSpeaker = None, confidence = 0,
       recogError = None \<rparr>"

definition enrollingApp :: App where
  "enrollingApp =
     \<lparr> service = profilerInitialized \<lparr>minEnrollSamples = 16000\<rparr> newEagleService,
       storage = \<lparr> objects = [], available = True \<rparr>,
       speakerName = ''Alice'',
       enrollmentState = idleEnrollment\<lparr>isEnrolling := True, isRecording := True\<rparr>,
       recognitionState = idleRecognition,
       recorder = \<lparr> recIsRecording = True, recAudioLevel = 0 \<rparr>,
       onErrorProvided = True, onEnrollmentCompleteProvided = True,
       onSpeakerIdentifiedProvided = True,
       events = [] \<rparr>"

definition alice :: SpeakerProfile where
  "alice = \<lparr> profileId = ''speaker_1_a'', name = ''Alice'', voiceprint = [1, 2],
             createdAt = 1000, lastUpdated = 1000 \<rparr>"

definition bob :: SpeakerProfile where
  "bob = \<lparr> profileId = ''speaker_2_b'', name = ''Bob'', voiceprint = [3, - 4],
           createdAt = 2000, lastUpdated = 2000 \<rparr>"

definition recognizingApp :: App where
  "recognizingApp =
     \<lparr> service = recognizerInitialized \<lparr>frameLength = Some 512\<rparr> [alice, bob] newEagleService,
       storage = \<lparr> objects = [profileToStore alice, profileToStore bob], available = True \<rparr>,
       speakerName = [],
       enrollmentState = idleEnrollment,
       recognitionState = idleRecognition\<lparr>isRecognizing := True, isListening := True\<rparr>,
       recorder = \<lparr> recIsRecording = True, recAudioLevel = 0 \<rparr>,
       onErrorProvided = True, onEnrollmentCompleteProvided = True,
       onSpeakerIdentifiedProvided = True,
       events = [] \<rparr>"

definition fresh0 :: Fresh where
  "fresh0 = \<lparr> dateNow = 1700000000123, randomSuffix = ''k3j9x0qzt'',
              createdNow = 1700000000124, updatedNow = 1700000000124 \<rparr>"

definition progressEngine :: Engine where
  "progressEngine =
     engineWith (Inr \<lparr>percentage = 40, feedback = ''AUDIO_OK''\<rparr>) (Inr [1, 2, 3, 4, 5])
       (Inr [9 / 10, 3 / 10])"



definition failingEngine :: Engine where
  "failingEngine =
     engineWith (Inl ''Error: enroll failed'') (Inl ''Error: export failed'')
       (Inl ''Error: process failed'')"

text \<open>The enrolment session after one second of audio for which the engine reports 40.\<close>

definition midEnrollmentApp :: App where
  "midEnrollmentApp =
     enrollHandleAudioData progressEngine fresh0 enrollingApp (replicate 16000 0)"

section \<open>Byte packing and unpacking are inverse\<close>

declare packLoop.simps [simp del] unpackLoop.simps [simp del] showNat.simps [simp del]

lemma mask8: "(0xFF :: int32) = mask 8"
  by (simp add: mask_eq_exp_minus_1)

lemma byte0_pack: "byte0 (packWord a b c d) = a"
  unfolding byte0_def packWord_def mask8
  by (rule bit_word_eqI) (auto simp add: bit_simps dest: bit_imp_le_length)

lemma byte1_pack: "byte1 (packWord a b c d) = b"
  unfolding byte1_def packWord_def mask8
  by (rule bit_word_eqI) (auto simp add: bit_simps dest: bit_imp_le_length)

lemma byte2_pack: "byte2 (packWord a b c d) = c"
  unfolding byte2_def packWord_def mask8
  by (rule bit_word_eqI) (auto simp add: bit_simps dest: bit_imp_le_length)

lemma byte3_pack: "byte3 (packWord a b c d) = d"
  unfolding byte3_def packWord_def mask8
  by (rule bit_word_eqI) (auto simp add: bit_simps dest: bit_imp_le_length)

lemma pack_bytes: "packWord (byte0 v) (byte1 v) (byte2 v) (byte3 v) = v"
  unfolding byte0_def byte1_def byte2_def byte3_def packWord_def mask8
proof (rule bit_word_eqI)
  fix n :: nat
  assume n: "n < LENGTH(32)"
  consider "n < 8" | "8 \<le> n" "n < 16" | "16 \<le> n" "n < 24" | "24 \<le> n" "n < 32"
    using n by fastforce
  then show "bit (push_bit 24 (ucast (ucast (drop_bit 24 v AND mask 8 :: int32) :: byte)) OR
          push_bit 16 (ucast (ucast (drop_bit 16 v AND mask 8) :: byte)) OR
          push_bit 8 (ucast (ucast (drop_bit 8 v AND mask 8) :: byte)) OR
          ucast (ucast (v AND mask 8) :: byte) :: int32) n = bit v n"
    by cases (auto simp add: bit_simps)
qed

lemma packLoop_length: "length (packLoop pb i arr) = length arr"
  by (induction pb i arr rule: packLoop.induct) (subst packLoop.simps, simp)

lemma packLoop_nth:
  "i mod 4 = 0 \<Longrightarrow> k < length arr \<Longrightarrow>
   packLoop pb i arr ! k =
     (if i div 4 \<le> k \<and> 4 * k < length pb
      then packWord (byteAt pb (4 * k)) (byteAt pb (4 * k + 1))
                    (byteAt pb (4 * k + 2)) (byteAt pb (4 * k + 3))
      else arr ! k)"
proof (induction pb i arr rule: packLoop.induct)
  case (1 pb i arr)
  have i4: "4 * (i div 4) = i" using "1.prems"(1) by presburger
  show ?case
  proof (cases "i < length pb")
    case False
    have c: "(i div 4 \<le> k \<and> 4 * k < length pb) = False"
    proof -
      have "\<not> (i div 4 \<le> k \<and> 4 * k < length pb)"
      proof
        assume "i div 4 \<le> k \<and> 4 * k < length pb"
        then have "4 * (i div 4) \<le> 4 * k" "4 * k < length pb" by simp_all
        with i4 False show False by simp
      qed
      then show ?thesis by blast
    qed
    have p: "packLoop pb i arr = arr"
      using False by (subst packLoop.simps) simp
    show ?thesis unfolding p c by (simp only: if_False)
  next
    case True
    let ?w = "packWord (byteAt pb i) (byteAt pb (i + 1)) (byteAt pb (i + 2)) (byteAt pb (i + 3))"
    let ?arr' = "arr[i div 4 := ?w]"
    have m: "(i + 4) mod 4 = 0" using "1.prems"(1) by presburger
    have d: "(i + 4) div 4 = Suc (i div 4)" by presburger
    have kl: "k < length ?arr'" using "1.prems"(2) by simp
    have step: "packLoop pb i arr = packLoop pb (i + 4) ?arr'"
      using True by (subst packLoop.simps) simp
    have ih: "packLoop pb (i + 4) ?arr' ! k =
       (if Suc (i div 4) \<le> k \<and> 4 * k < length pb
        then packWord (byteAt pb (4 * k)) (byteAt pb (4 * k + 1))
                      (byteAt pb (4 * k + 2)) (byteAt pb (4 * k + 3))
        else ?arr' ! k)"
      using "1.IH"[OF True m kl] unfolding d .
    show ?thesis
    proof (cases "k = i div 4")
      case eq: True
      then have k4: "4 * k = i" using i4 by simp
      have "?arr' ! k = ?w" using eq "1.prems"(2) by simp
      with eq ih step True k4 show ?thesis by simp
    next
      case ne: False
      then have "?arr' ! k = arr ! k" by simp
      moreover have "(Suc (i div 4) \<le> k) = (i div 4 \<le> k)" using ne by linarith
      ultimately show ?thesis using ih step by simp
    qed
  qed
qed

lemma unpackLoop_length: "length (unpackLoop arr i out) = length out"
  by (induction arr i out rule: unpackLoop.induct) (subst unpackLoop.simps, simp)

lemma unpackLoop_nth:
  "length out = length arr * 4 \<Longrightarrow> j < length out \<Longrightarrow>
   unpackLoop arr i out ! j =
     (if i \<le> j div 4 then byteSel (j mod 4) (arr ! (j div 4)) else out ! j)"
proof (induction arr i out rule: unpackLoop.induct)
  case (1 arr i out)
  have jd: "j div 4 < length arr" using "1.prems" by auto
  show ?case
  proof (cases "i < length arr")
    case False
    with jd show ?thesis by (subst unpackLoop.simps) simp
  next
    case True
    let ?out' = "out[i * 4 := byte0 (arr ! i), i * 4 + 1 := byte1 (arr ! i),
                     i * 4 + 2 := byte2 (arr ! i), i * 4 + 3 := byte3 (arr ! i)]"
    have len: "length ?out' = length arr * 4" using "1.prems"(1) by simp
    have jl: "j < length ?out'" using "1.prems"(2) by simp
    have ih: "unpackLoop arr (i + 1) ?out' ! j =
       (if i + 1 \<le> j div 4 then byteSel (j mod 4) (arr ! (j div 4)) else ?out' ! j)"
      using "1.IH"[OF True len jl] .
    have step: "unpackLoop arr i out = unpackLoop arr (i + 1) ?out'"
      using True by (subst unpackLoop.simps) simp
    show ?thesis
    proof (cases "j div 4 = i")
      case eq: True
      then have j: "j = i * 4 + j mod 4" by auto
      have r: "j mod 4 < 4" by simp
      then consider "j mod 4 = 0" | "j mod 4 = 1" | "j mod 4 = 2" | "j mod 4 = 3" by linarith
      then have "?out' ! j = byteSel (j mod 4) (arr ! i)"
      proof cases
        case 1 with j have "j = i * 4" by simp
        with 1 "1.prems" show ?thesis by (simp add: byteSel_def)
      next
        case 2 with j have "j = i * 4 + 1" by simp
        with 2 "1.prems" show ?thesis by (simp add: byteSel_def)
      next
        case 3 with j have "j = i * 4 + 2" by simp
        with 3 "1.prems" show ?thesis by (simp add: byteSel_def)
      next
        case 4 with j have "j = i * 4 + 3" by simp
        with 4 "1.prems" show ?thesis by (simp add: byteSel_def)
      qed
      with eq step ih show ?thesis by simp
    next
      case ne: False
      then have "j \<noteq> i * 4" "j \<noteq> i * 4 + 1" "j \<noteq> i * 4 + 2" "j \<noteq> i * 4 + 3" by auto
      then have "?out' ! j = out ! j" by simp
      with ne step ih show ?thesis by auto
    qed
  qed
qed

lemma byteSel_packWord:
  "r < 4 \<Longrightarrow> byteSel r (packWord (byteAt pb (4 * k)) (byteAt pb (4 * k + 1))
        (byteAt pb (4 * k + 2)) (byteAt pb (4 * k + 3))) = byteAt pb (4 * k + r)"
proof -
  assume "r < 4"
  then consider "r = 0" | "r = 1" | "r = 2" | "r = 3" by linarith
  then show ?thesis
    by cases (simp_all add: byteSel_def byte0_pack byte1_pack byte2_pack byte3_pack)
qed

lemma padded_ge: "(n::nat) \<le> ((n + 3) div 4) * 4"
proof -
  have "n + 3 = ((n + 3) div 4) * 4 + (n + 3) mod 4" by simp
  moreover have "(n + 3) mod 4 < 4" by simp
  ultimately show ?thesis by linarith
qed

lemma padded_length: "((n + 3) div 4) * 4 = n + padLen n"
  using padded_ge [of n] by (simp add: padLen_def)

lemma padLen_aligned: "n mod 4 = 0 \<Longrightarrow> padLen n = 0"
proof -
  assume "n mod 4 = 0"
  then obtain q where "n = 4 * q" by auto
  then show ?thesis by (simp add: padLen_def)
qed

lemma packVoiceprint_nth:
  assumes "k < (length bs + 3) div 4"
  shows "packVoiceprint bs ! k =
     (if 4 * k < length bs
      then packWord (byteAt bs (4 * k)) (byteAt bs (4 * k + 1))
                    (byteAt bs (4 * k + 2)) (byteAt bs (4 * k + 3))
      else 0)"
proof -
  have "(0::nat) mod 4 = 0" by simp
  moreover have "k < length (replicate ((length bs + 3) div 4) (0::int32))"
    using assms by simp
  ultimately have "packLoop bs 0 (replicate ((length bs + 3) div 4) 0) ! k =
      (if 0 div 4 \<le> k \<and> 4 * k < length bs
       then packWord (byteAt bs (4 * k)) (byteAt bs (4 * k + 1))
                    (byteAt bs (4 * k + 2)) (byteAt bs (4 * k + 3))
       else replicate ((length bs + 3) div 4) 0 ! k)"
    by (rule packLoop_nth)
  moreover have "replicate ((length bs + 3) div 4) (0::int32) ! k = 0"
    using assms by (rule nth_replicate)
  moreover have "((0::nat) div 4 \<le> k \<and> 4 * k < length bs) = (4 * k < length bs)" by simp
  ultimately show ?thesis unfolding packVoiceprint_def by (simp only:)
qed

lemma unpackVoiceprint_nth:
  assumes "j < length ws * 4"
  shows "unpackVoiceprint ws ! j = byteSel (j mod 4) (ws ! (j div 4))"
  using assms by (simp add: unpackVoiceprint_def unpackLoop_nth)

lemma length_packVoiceprint: "length (packVoiceprint bs) = (length bs + 3) div 4"
  by (simp add: packVoiceprint_def packLoop_length)

lemma length_unpackVoiceprint: "length (unpackVoiceprint ws) = length ws * 4"
  by (simp add: unpackVoiceprint_def unpackLoop_length)

lemma unpack_pack:
  "unpackVoiceprint (packVoiceprint bs) = bs @ replicate (padLen (length bs)) 0"
proof (rule nth_equalityI)
  show "length (unpackVoiceprint (packVoiceprint bs)) =
        length (bs @ replicate (padLen (length bs)) 0)"
    by (simp add: length_unpackVoiceprint length_packVoiceprint padded_length)
next
  fix j assume "j < length (unpackVoiceprint (packVoiceprint bs))"
  then have j: "j < ((length bs + 3) div 4) * 4"
    by (simp add: length_unpackVoiceprint length_packVoiceprint)
  then have k: "j div 4 < (length bs + 3) div 4" by auto
  have A: "unpackVoiceprint (packVoiceprint bs) ! j =
     byteSel (j mod 4) (if 4 * (j div 4) < length bs
      then packWord (byteAt bs (4 * (j div 4))) (byteAt bs (4 * (j div 4) + 1))
                    (byteAt bs (4 * (j div 4) + 2)) (byteAt bs (4 * (j div 4) + 3))
      else 0)"
    using j by (simp add: unpackVoiceprint_nth length_packVoiceprint packVoiceprint_nth [OF k])
  have B: "(bs @ replicate (padLen (length bs)) 0) ! j = byteAt bs j"
    using j by (simp add: nth_append byteAt_def padded_length)
  show "unpackVoiceprint (packVoiceprint bs) ! j = (bs @ replicate (padLen (length bs)) 0) ! j"
  proof (cases "4 * (j div 4) < length bs")
    case True
    have "byteSel (j mod 4) (packWord (byteAt bs (4 * (j div 4))) (byteAt bs (4 * (j div 4) + 1))
                    (byteAt bs (4 * (j div 4) + 2)) (byteAt bs (4 * (j div 4) + 3)))
          = byteAt bs (4 * (j div 4) + j mod 4)"
      by (rule byteSel_packWord) simp
    with True A B show ?thesis by simp
  next
    case False
    moreover have "4 * (j div 4) \<le> j" by simp
    ultimately have "\<not> j < length bs" by linarith
    then have "byteAt bs j = 0" by (simp add: byteAt_def)
    moreover have "byteSel (j mod 4) 0 = 0"
      by (simp add: byteSel_def byte0_def byte1_def byte2_def byte3_def)
    ultimately show ?thesis using False A B by simp
  qed
qed

lemma pack_unpack: "packVoiceprint (unpackVoiceprint ws) = ws"
proof (rule nth_equalityI)
  show len: "length (packVoiceprint (unpackVoiceprint ws)) = length ws"
    by (simp add: length_packVoiceprint length_unpackVoiceprint)
next
  fix k assume "k < length (packVoiceprint (unpackVoiceprint ws))"
  then have k: "k < length ws"
    by (simp add: length_packVoiceprint length_unpackVoiceprint)
  let ?out = "unpackVoiceprint ws"
  have lo: "length ?out = length ws * 4" by (rule length_unpackVoiceprint)
  have kk: "k < (length ?out + 3) div 4" using k lo by simp
  have lt: "4 * k < length ?out" using k lo by simp
  have b: "byteAt ?out (4 * k + r) = byteSel r (ws ! k)" if "r < 4" for r
  proof -
    have j: "4 * k + r < length ws * 4" using k that by simp
    have "(4 * k + r) div 4 = k" "(4 * k + r) mod 4 = r" using that by simp_all
    with unpackVoiceprint_nth [OF j] j lo show ?thesis by (simp add: byteAt_def)
  qed
  have "packVoiceprint ?out ! k =
      packWord (byteAt ?out (4 * k)) (byteAt ?out (4 * k + 1))
               (byteAt ?out (4 * k + 2)) (byteAt ?out (4 * k + 3))"
    using packVoiceprint_nth [OF kk] lt by simp
  also have "\<dots> = packWord (byte0 (ws ! k)) (byte1 (ws ! k)) (byte2 (ws ! k)) (byte3 (ws ! k))"
    using b [of 0] b [of 1] b [of 2] b [of 3] by (simp add: byteSel_def)
  also have "\<dots> = ws ! k" by (rule pack_bytes)
  finally show "packVoiceprint (unpackVoiceprint ws) ! k = ws ! k" .
qed

text \<open>What the recognizer is given for a profile whose voiceprint was packed from \<open>bs\<close>.\<close>

lemma exported_bytes_reach_recognizer:
  "voiceprint profile = packVoiceprint bs \<Longrightarrow>
   eagleProfiles [profile] = [bs @ replicate (padLen (length bs)) 0]"
  by (simp add: eagleProfiles_def unpack_pack)

lemma replicate3: "replicate 3 x = [x, x, x]"
  by (simp add: numeral_3_eq_3)

text \<open>
  C10. Unpacking a packed byte sequence gives the bytes back, followed by the zero bytes
  that fill the last word: none when the length is a multiple of four. Packing the
  unpacked words gives the words back.
\<close>

theorem voiceprint_packing_inverse:
  "unpackVoiceprint (packVoiceprint bs) = bs @ replicate (padLen (length bs)) 0 \<and>
   (length bs mod 4 = 0 \<longrightarrow> unpackVoiceprint (packVoiceprint bs) = bs) \<and>
   padLen (length bs) < 4 \<and>
   packVoiceprint (unpackVoiceprint ws) = ws"
proof -
  have "padLen (length bs) < 4"
  proof -
    have "length bs + 3 = ((length bs + 3) div 4) * 4 + (length bs + 3) mod 4" by simp
    then show ?thesis unfolding padLen_def by linarith
  qed
  then show ?thesis
    by (simp add: unpack_pack pack_unpack padLen_aligned)
qed

theorem voiceprint_packing_inverse_witness:
  "length [1, 2, 3, 4 :: byte] mod 4 = 0 \<and>
   unpackVoiceprint (packVoiceprint [1, 2, 3, 4]) = [1, 2, 3, 4] \<and>
   unpackVoiceprint (packVoiceprint [1, 2, 3, 4, 5]) = [1, 2, 3, 4, 5, 0, 0, 0] \<and>
   packVoiceprint (unpackVoiceprint [7, - 1]) = [7, - 1]"
  using voiceprint_packing_inverse [of "[1, 2, 3, 4]" "[7, - 1]"]
    voiceprint_packing_inverse [of "[1, 2, 3, 4, 5]" "[]"]
  by (simp add: padLen_def replicate3)

section \<open>Sample conversion\<close>







section \<open>The recognition frame adapter\<close>

lemma newEvents_emit: "newEvents a (emit e a) = [e]"
  by (simp add: newEvents_def emit_def)

lemma recognizeAudio_ready:
  "isInitialized (service a) \<Longrightarrow> recognizer (service a) = Some r \<Longrightarrow>
   recognizeAudio eng a pcm =
     (case processResponse eng (events a) (adjustFrame (expectedFrameLength r) pcm) of
        Inl e \<Rightarrow> Inl (''Recognition failed: '' @ e)
      | Inr scores \<Rightarrow> Inr (decide scores),
      emit (RecognizerProcess (adjustFrame (expectedFrameLength r) pcm)) a)"
  by (simp add: recognizeAudio_def Let_def split: sum.split)

lemma adjustFrame_length: "length (adjustFrame n pcm) = n"
  by (simp add: adjustFrame_def)

lemma expectedFrameLength_given: "frameLength r = Some n \<Longrightarrow> 0 < n \<Longrightarrow> expectedFrameLength r = n"
  by (simp add: expectedFrameLength_def)

text \<open>
  C5. On an initialised service with a recognizer, whatever the length of the input
  frame, \<^verbatim>\<open>recognizeAudio\<close> makes one call to the engine's process operation, with a
  frame of exactly the expected length (the recognizer's \<^verbatim>\<open>frameLength\<close> when it has
  one): the prefix of a longer frame, a shorter frame followed by zeros, an equal frame
  as it is. The adjustment has no error of its own: the call fails only with the error
  of the engine.
\<close>

theorem recognizeAudio_forwards_exact_frame:
  assumes "isInitialized (service a)" and "recognizer (service a) = Some r"
  shows "newEvents a (snd (recognizeAudio eng a pcmData)) =
           [RecognizerProcess (adjustFrame (expectedFrameLength r) pcmData)] \<and>
         length (adjustFrame (expectedFrameLength r) pcmData) = expectedFrameLength r \<and>
         (\<forall>n. frameLength r = Some n \<and> 0 < n \<longrightarrow>
            length (adjustFrame (expectedFrameLength r) pcmData) = n) \<and>
         (length pcmData > expectedFrameLength r \<longrightarrow>
            adjustFrame (expectedFrameLength r) pcmData = take (expectedFrameLength r) pcmData) \<and>
         (length pcmData < expectedFrameLength r \<longrightarrow>
            adjustFrame (expectedFrameLength r) pcmData =
              pcmData @ replicate (expectedFrameLength r - length pcmData) 0) \<and>
         (length pcmData = expectedFrameLength r \<longrightarrow>
            adjustFrame (expectedFrameLength r) pcmData = pcmData) \<and>
         fst (recognizeAudio eng a pcmData) =
           (case processResponse eng (events a) (adjustFrame (expectedFrameLength r) pcmData) of
              Inl e \<Rightarrow> Inl (''Recognition failed: '' @ e)
            | Inr scores \<Rightarrow> Inr (decide scores))"
proof -
  have "recognizeAudio eng a pcmData =
     (case processResponse eng (events a) (adjustFrame (expectedFrameLength r) pcmData) of
        Inl e \<Rightarrow> Inl (''Recognition failed: '' @ e)
      | Inr scores \<Rightarrow> Inr (decide scores),
      emit (RecognizerProcess (adjustFrame (expectedFrameLength r) pcmData)) a)"
    using assms by (rule recognizeAudio_ready)
  then have "newEvents a (snd (recognizeAudio eng a pcmData)) =
           [RecognizerProcess (adjustFrame (expectedFrameLength r) pcmData)]"
    and "fst (recognizeAudio eng a pcmData) =
           (case processResponse eng (events a) (adjustFrame (expectedFrameLength r) pcmData) of
              Inl e \<Rightarrow> Inl (''Recognition failed: '' @ e)
            | Inr scores \<Rightarrow> Inr (decide scores))"
    by (simp_all add: newEvents_emit)
  moreover have "\<forall>n. frameLength r = Some n \<and> 0 < n \<longrightarrow>
            length (adjustFrame (expectedFrameLength r) pcmData) = n"
    by (simp add: adjustFrame_length expectedFrameLength_given)
  moreover have "length pcmData > expectedFrameLength r \<longrightarrow>
            adjustFrame (expectedFrameLength r) pcmData = take (expectedFrameLength r) pcmData"
    by (simp add: adjustFrame_def)
  moreover have "length pcmData < expectedFrameLength r \<longrightarrow>
            adjustFrame (expectedFrameLength r) pcmData =
              pcmData @ replicate (expectedFrameLength r - length pcmData) 0"
    by (simp add: adjustFrame_def)
  moreover have "length pcmData = expectedFrameLength r \<longrightarrow>
            adjustFrame (expectedFrameLength r) pcmData = pcmData"
    by (simp add: adjustFrame_def)
  ultimately show ?thesis
    by (simp only: adjustFrame_length simp_thms)
qed

lemma recognizingApp_ready:
  "isInitialized (service recognizingApp) \<and>
   recognizer (service recognizingApp) = Some \<lparr>frameLength = Some 512\<rparr>"
  by (simp add: recognizingApp_def recognizerInitialized_def newEagleService_def)

theorem recognizeAudio_forwards_exact_frame_witness:
  "isInitialized (service recognizingApp) \<and>
   recognizer (service recognizingApp) = Some \<lparr>frameLength = Some 512\<rparr> \<and>
   newEvents recognizingApp
     (snd (recognizeAudio (engineWith (Inl ''x'') (Inl ''x'') (Inr [9 / 10, 3 / 10]))
        recognizingApp [1, 2, 3])) =
     [RecognizerProcess ([1, 2, 3] @ replicate 509 0)] \<and>
   newEvents recognizingApp
     (snd (recognizeAudio (engineWith (Inl ''x'') (Inl ''x'') (Inr [9 / 10, 3 / 10]))
        recognizingApp (replicate 600 5))) =
     [RecognizerProcess (replicate 512 5)]"
proof -
  have e: "expectedFrameLength \<lparr>frameLength = Some 512\<rparr> = 512"
    by (simp add: expectedFrameLength_def)
  have s: "adjustFrame 512 [1, 2, 3 :: int16] = [1, 2, 3] @ replicate 509 0"
    by (simp add: adjustFrame_def)
  have l: "adjustFrame 512 (replicate 600 (5 :: int16)) = replicate 512 5"
    by (simp add: adjustFrame_def)
  show ?thesis
    using recognizingApp_ready
      recognizeAudio_forwards_exact_frame
        [of recognizingApp "\<lparr>frameLength = Some 512\<rparr>"
            "engineWith (Inl ''x'') (Inl ''x'') (Inr [9 / 10, 3 / 10])" "[1, 2, 3]"]
      recognizeAudio_forwards_exact_frame
        [of recognizingApp "\<lparr>frameLength = Some 512\<rparr>"
            "engineWith (Inl ''x'') (Inl ''x'') (Inr [9 / 10, 3 / 10])" "replicate 600 5"]
    by (simp only: e s l simp_thms)
qed

section \<open>The recognition decision\<close>

lemma selectBest_spec:
  "selectBest xs i m b = (m', b') \<Longrightarrow>
     (\<forall>x\<in>set xs. x \<le> m') \<and> m \<le> m' \<and>
     (if m' = m then b' = b
      else \<exists>k<length xs. b' = int (i + k) \<and> xs ! k = m' \<and> (\<forall>j<k. xs ! j < m'))"
proof (induction xs arbitrary: i m b)
  case Nil
  then show ?case by simp
next
  case (Cons x xs)
  show ?case
  proof (cases "x > m")
    case True
    with Cons.prems have "selectBest xs (i + 1) x (int i) = (m', b')" by simp
    from Cons.IH [OF this]
    have le: "\<forall>y\<in>set xs. y \<le> m'" and xm: "x \<le> m'"
      and idx: "if m' = x then b' = int i
        else \<exists>k<length xs. b' = int (i + 1 + k) \<and> xs ! k = m' \<and> (\<forall>j<k. xs ! j < m')"
      by blast+
    have ne: "m' \<noteq> m" using True xm by simp
    have "\<exists>k<length (x # xs). b' = int (i + k) \<and> (x # xs) ! k = m' \<and> (\<forall>j<k. (x # xs) ! j < m')"
    proof (cases "m' = x")
      case True
      with idx have "b' = int (i + 0) \<and> (x # xs) ! 0 = m' \<and> (\<forall>j<0. (x # xs) ! j < m')" by simp
      then show ?thesis by blast
    next
      case False
      with idx obtain k where k: "k < length xs" "b' = int (i + 1 + k)" "xs ! k = m'"
        "\<forall>j<k. xs ! j < m'" by auto
      have "\<forall>j<Suc k. (x # xs) ! j < m'"
      proof (intro allI impI)
        fix j assume "j < Suc k"
        show "(x # xs) ! j < m'"
        proof (cases j)
          case 0
          with xm False show ?thesis by simp
        next
          case (Suc j')
          with \<open>j < Suc k\<close> k(4) show ?thesis by simp
        qed
      qed
      with k have "Suc k < length (x # xs) \<and> b' = int (i + Suc k) \<and> (x # xs) ! Suc k = m' \<and>
        (\<forall>j<Suc k. (x # xs) ! j < m')" by simp
      then show ?thesis by blast
    qed
    with le xm True ne show ?thesis by auto
  next
    case False
    with Cons.prems have "selectBest xs (i + 1) m b = (m', b')" by simp
    from Cons.IH [OF this]
    have le: "\<forall>y\<in>set xs. y \<le> m'" and mm: "m \<le> m'"
      and idx: "if m' = m then b' = b
        else \<exists>k<length xs. b' = int (i + 1 + k) \<and> xs ! k = m' \<and> (\<forall>j<k. xs ! j < m')"
      by blast+
    have xm: "x \<le> m'" using False mm by simp
    show ?thesis
    proof (cases "m' = m")
      case True
      with idx le xm mm show ?thesis by simp
    next
      case ne: False
      with idx obtain k where k: "k < length xs" "b' = int (i + 1 + k)" "xs ! k = m'"
        "\<forall>j<k. xs ! j < m'" by auto
      have xlt: "x < m'" using False mm ne by simp
      have "\<forall>j<Suc k. (x # xs) ! j < m'"
      proof (intro allI impI)
        fix j assume "j < Suc k"
        show "(x # xs) ! j < m'"
        proof (cases j)
          case 0
          with xlt show ?thesis by simp
        next
          case (Suc j')
          with \<open>j < Suc k\<close> k(4) show ?thesis by simp
        qed
      qed
      with k have "Suc k < length (x # xs) \<and> b' = int (i + Suc k) \<and> (x # xs) ! Suc k = m' \<and>
        (\<forall>j<Suc k. (x # xs) ! j < m')" by simp
      then have "\<exists>k<length (x # xs). b' = int (i + k) \<and> (x # xs) ! k = m' \<and>
         (\<forall>j<k. (x # xs) ! j < m')" by blast
      with ne le xm mm show ?thesis by simp
    qed
  qed
qed

lemma decide_spec:
  assumes "\<exists>s\<in>set scores. - 1 < s"
  shows "resultConfidence (decide scores) = Max (set scores)"
    and "Max (set scores) < 1 / 2 \<Longrightarrow> speakerIndex (decide scores) = - 1"
    and "\<not> Max (set scores) < 1 / 2 \<Longrightarrow>
          \<exists>k<length scores. speakerIndex (decide scores) = int k \<and> scores ! k = Max (set scores) \<and>
             (\<forall>j<k. scores ! j < Max (set scores))"
proof -
  obtain m' b' where sb: "selectBest scores 0 (- 1) (- 1) = (m', b')" by fastforce
  from selectBest_spec [OF sb]
  have le: "\<forall>x\<in>set scores. x \<le> m'" and "- 1 \<le> m'"
    and idx: "if m' = - 1 then b' = - 1
      else \<exists>k<length scores. b' = int (0 + k) \<and> scores ! k = m' \<and> (\<forall>j<k. scores ! j < m')"
    by blast+
  from assms le have gt: "- 1 < m'" by fastforce
  with idx obtain k where k: "k < length scores" "b' = int k" "scores ! k = m'"
    "\<forall>j<k. scores ! j < m'" by auto
  have mem: "m' \<in> set scores" using k(1,3) nth_mem by blast
  have mx: "Max (set scores) = m'"
    by (rule Max_eqI) (use le mem in auto)
  show "resultConfidence (decide scores) = Max (set scores)"
    by (simp add: decide_def sb mx)
  show "Max (set scores) < 1 / 2 \<Longrightarrow> speakerIndex (decide scores) = - 1"
    by (simp add: decide_def sb mx confidenceThreshold_def)
  show "\<not> Max (set scores) < 1 / 2 \<Longrightarrow>
          \<exists>k<length scores. speakerIndex (decide scores) = int k \<and> scores ! k = Max (set scores) \<and>
             (\<forall>j<k. scores ! j < Max (set scores))"
    using k by (auto simp add: decide_def sb mx confidenceThreshold_def)
qed

lemma getSpeakerName_none: "getSpeakerName s (- 1) = ''Unknown''"
  by (simp add: getSpeakerName_def)

lemma getSpeakerName_index:
  "k < length (enrolledProfiles s) \<Longrightarrow> getSpeakerName s (int k) = name (enrolledProfiles s ! k)"
  by (simp add: getSpeakerName_def)

text \<open>
  C4. When the engine returns a score vector in which some score exceeds -1 (as every
  non-empty vector of similarity scores does), \<^verbatim>\<open>recognizeAudio\<close> returns the maximum
  score as confidence. When the maximum is below the threshold 0.5 the speaker index is
  -1, which \<^verbatim>\<open>getSpeakerName\<close> maps to \<^verbatim>\<open>'Unknown'\<close>; otherwise it is the first index
  that holds the maximum, which \<^verbatim>\<open>getSpeakerName\<close> maps to the name of the enrolled
  profile at that index.
\<close>

theorem recognizeAudio_selects_best:
  assumes "isInitialized (service a)" and "recognizer (service a) = Some r"
    and "processResponse eng (events a) (adjustFrame (expectedFrameLength r) pcmData) = Inr scores"
    and "\<exists>s\<in>set scores. - 1 < s"
  shows "\<exists>res. fst (recognizeAudio eng a pcmData) = Inr res \<and>
           resultConfidence res = Max (set scores) \<and>
           (Max (set scores) < 1 / 2 \<longrightarrow>
              speakerIndex res = - 1 \<and>
              getSpeakerName (service a) (speakerIndex res) = ''Unknown'') \<and>
           (\<not> Max (set scores) < 1 / 2 \<longrightarrow>
              (\<exists>k<length scores. speakerIndex res = int k \<and> scores ! k = Max (set scores) \<and>
                 (\<forall>j<k. scores ! j < Max (set scores)) \<and>
                 (k < length (enrolledProfiles (service a)) \<longrightarrow>
                    getSpeakerName (service a) (speakerIndex res) =
                      name (enrolledProfiles (service a) ! k))))"
proof -
  have r: "fst (recognizeAudio eng a pcmData) = Inr (decide scores)"
    using recognizeAudio_ready [OF assms(1,2), of eng pcmData] assms(3) by simp
  have c: "resultConfidence (decide scores) = Max (set scores)"
    using assms(4) by (rule decide_spec(1))
  have lo: "Max (set scores) < 1 / 2 \<longrightarrow>
              speakerIndex (decide scores) = - 1 \<and>
              getSpeakerName (service a) (speakerIndex (decide scores)) = ''Unknown''"
    using decide_spec(2) [OF assms(4)] by (simp add: getSpeakerName_none)
  have hi: "\<not> Max (set scores) < 1 / 2 \<longrightarrow>
              (\<exists>k<length scores. speakerIndex (decide scores) = int k \<and>
                 scores ! k = Max (set scores) \<and>
                 (\<forall>j<k. scores ! j < Max (set scores)) \<and>
                 (k < length (enrolledProfiles (service a)) \<longrightarrow>
                    getSpeakerName (service a) (speakerIndex (decide scores)) =
                      name (enrolledProfiles (service a) ! k)))"
  proof
    assume "\<not> Max (set scores) < 1 / 2"
    from decide_spec(3) [OF assms(4) this]
    obtain k where k: "k < length scores" "speakerIndex (decide scores) = int k"
      "scores ! k = Max (set scores)" "\<forall>j<k. scores ! j < Max (set scores)" by blast
    have "k < length (enrolledProfiles (service a)) \<longrightarrow>
        getSpeakerName (service a) (speakerIndex (decide scores)) =
          name (enrolledProfiles (service a) ! k)"
      using k(2) by (simp add: getSpeakerName_index)
    with k show "\<exists>k<length scores. speakerIndex (decide scores) = int k \<and>
                 scores ! k = Max (set scores) \<and>
                 (\<forall>j<k. scores ! j < Max (set scores)) \<and>
                 (k < length (enrolledProfiles (service a)) \<longrightarrow>
                    getSpeakerName (service a) (speakerIndex (decide scores)) =
                      name (enrolledProfiles (service a) ! k))" by blast
  qed
  from r c lo hi show ?thesis by blast
qed

theorem recognizeAudio_selects_best_witness:
  "isInitialized (service recognizingApp) \<and>
   recognizer (service recognizingApp) = Some \<lparr>frameLength = Some 512\<rparr> \<and>
   processResponse (engineWith (Inl ''x'') (Inl ''x'') (Inr [9 / 10, 3 / 10]))
     (events recognizingApp) (adjustFrame (expectedFrameLength \<lparr>frameLength = Some 512\<rparr>) [1, 2, 3])
     = Inr [9 / 10, 3 / 10] \<and>
   (\<exists>s\<in>set [9 / 10, 3 / 10 :: real]. - 1 < s) \<and>
   (\<exists>res. fst (recognizeAudio (engineWith (Inl ''x'') (Inl ''x'') (Inr [9 / 10, 3 / 10]))
              recognizingApp [1, 2, 3]) = Inr res \<and>
      resultConfidence res = 9 / 10 \<and> speakerIndex res = 0 \<and>
      getSpeakerName (service recognizingApp) (speakerIndex res) = ''Alice'')"
proof -
  let ?eng = "engineWith (Inl ''x'') (Inl ''x'') (Inr [9 / 10, 3 / 10])"
  have h1: "isInitialized (service recognizingApp)"
    and h2: "recognizer (service recognizingApp) = Some \<lparr>frameLength = Some 512\<rparr>"
    by (simp_all add: recognizingApp_def recognizerInitialized_def newEagleService_def)
  have h3: "processResponse ?eng (events recognizingApp)
     (adjustFrame (expectedFrameLength \<lparr>frameLength = Some 512\<rparr>) [1, 2, 3]) = Inr [9 / 10, 3 / 10]"
    by (simp add: engineWith_def)
  have h4: "\<exists>s\<in>set [9 / 10, 3 / 10 :: real]. - 1 < s" by simp
  have mx: "Max (set [9 / 10, 3 / 10 :: real]) = 9 / 10" by simp
  from recognizeAudio_selects_best [OF h1 h2 h3 h4]
  obtain res where res: "fst (recognizeAudio ?eng recognizingApp [1, 2, 3]) = Inr res"
    "resultConfidence res = 9 / 10"
    "\<exists>k<length [9 / 10, 3 / 10 :: real]. speakerIndex res = int k \<and>
        [9 / 10, 3 / 10 :: real] ! k = 9 / 10 \<and>
        (k < length (enrolledProfiles (service recognizingApp)) \<longrightarrow>
           getSpeakerName (service recognizingApp) (speakerIndex res) =
             name (enrolledProfiles (service recognizingApp) ! k))"
    unfolding mx by auto
  then obtain k where k: "k < 2" "speakerIndex res = int k" "[9 / 10, 3 / 10 :: real] ! k = 9 / 10"
    "k < length (enrolledProfiles (service recognizingApp)) \<longrightarrow>
           getSpeakerName (service recognizingApp) (speakerIndex res) =
             name (enrolledProfiles (service recognizingApp) ! k)" by auto
  have "k = 0"
  proof (rule ccontr)
    assume "k \<noteq> 0"
    with k(1) have "k = 1" by simp
    with k(3) show False by simp
  qed
  with k have "speakerIndex res = 0"
    "getSpeakerName (service recognizingApp) (speakerIndex res) = ''Alice''"
    by (simp_all add: recognizingApp_def alice_def recognizerInitialized_def
        newEagleService_def)
  with res h1 h2 h3 h4 show ?thesis by blast
qed

section \<open>The profile store round trip\<close>

lemma find_upsert_id: "find (\<lambda>x. storedId x = storedId r) (upsert r objs) = Some r"
  by (induction objs) auto

lemma find_upsert_name:
  "\<not> nameConflict r objs \<Longrightarrow> find (\<lambda>x. storedName x = storedName r) (upsert r objs) = Some r"
  by (induction objs) (auto simp add: nameConflict_def)

lemma roundtrip_voiceprint: "newInt32Array (arrayFrom v) = v"
  by (simp add: newInt32Array_def arrayFrom_def comp_def map_idI)

lemma roundtrip_date: "newDate (toISOString d) = d"
  by (simp add: toISOString_def)

lemma roundtrip_profile: "profileFromStore (profileToStore p) = p"
  by (simp add: profileFromStore_def profileToStore_def roundtrip_voiceprint roundtrip_date)

lemma save_succeeds:
  assumes "saveSpeakerProfile p db = Inr db'"
  shows "available db" and "\<not> nameConflict (profileToStore p) (objects db)"
    and "db' = db\<lparr>objects := upsert (profileToStore p) (objects db)\<rparr>"
  using assms by (auto simp add: saveSpeakerProfile_def split: if_splits)


text \<open>
  C8. After \<^verbatim>\<open>saveSpeakerProfile\<close> has saved a profile, loading by its id and loading
  by its name both return that very profile: the same words in the voiceprint, the same
  name, and the same dates.
\<close>

theorem save_then_load:
  assumes "saveSpeakerProfile p db = Inr db'"
  shows "getSpeakerProfile (profileId p) db' = Inr (Some p) \<and>
         getSpeakerByName (name p) db' = Inr (Some p) \<and>
         newInt32Array (arrayFrom (voiceprint p)) = voiceprint p"
proof -
  have av: "available db" and nc: "\<not> nameConflict (profileToStore p) (objects db)"
    and db': "db' = db\<lparr>objects := upsert (profileToStore p) (objects db)\<rparr>"
    using assms by (rule save_succeeds)+
  have i: "storedId (profileToStore p) = profileId p" and n: "storedName (profileToStore p) = name p"
    by (simp_all add: profileToStore_def)
  have byId: "find (\<lambda>x. storedId x = profileId p) (upsert (profileToStore p) (objects db))
      = Some (profileToStore p)"
    using find_upsert_id [of "profileToStore p" "objects db"] by (simp only: i)
  have byName: "find (\<lambda>x. storedName x = name p) (upsert (profileToStore p) (objects db))
      = Some (profileToStore p)"
    using find_upsert_name [OF nc] by (simp only: n)
  have "getSpeakerProfile (profileId p) db' = Inr (Some (profileFromStore (profileToStore p)))"
    using av byId by (simp add: getSpeakerProfile_def db')
  moreover have "getSpeakerByName (name p) db' = Inr (Some (profileFromStore (profileToStore p)))"
    using av byName by (simp add: getSpeakerByName_def db')
  ultimately show ?thesis
    by (simp add: roundtrip_profile roundtrip_voiceprint)
qed

theorem save_then_load_witness:
  "saveSpeakerProfile bob \<lparr>objects = [profileToStore alice], available = True\<rparr> =
     Inr \<lparr>objects = [profileToStore alice, profileToStore bob], available = True\<rparr> \<and>
   getSpeakerProfile ''speaker_2_b''
     \<lparr>objects = [profileToStore alice, profileToStore bob], available = True\<rparr> = Inr (Some bob) \<and>
   getSpeakerByName ''Bob''
     \<lparr>objects = [profileToStore alice, profileToStore bob], available = True\<rparr> = Inr (Some bob)"
proof -
  have h: "saveSpeakerProfile bob \<lparr>objects = [profileToStore alice], available = True\<rparr> =
     Inr \<lparr>objects = [profileToStore alice, profileToStore bob], available = True\<rparr>"
    by (simp add: saveSpeakerProfile_def nameConflict_def profileToStore_def alice_def bob_def)
  have "profileId bob = ''speaker_2_b''" "name bob = ''Bob''" by (simp_all add: bob_def)
  with save_then_load [OF h] h show ?thesis by simp
qed

section \<open>\<^verbatim>\<open>enrollAudio\<close>: buffering and forwarding\<close>

lemma enrollAudio_collecting:
  "isInitialized (service a) \<Longrightarrow>
   length (audioBuffer (service a) @ pcm) < minBufferSize (service a) \<Longrightarrow>
   enrollAudio eng a pcm =
     (Inr \<lparr>percentage = 0, feedback = ''COLLECTING_AUDIO''\<rparr>,
      a\<lparr>service := (service a)\<lparr>audioBuffer := audioBuffer (service a) @ pcm\<rparr>\<rparr>)"
  by (simp add: enrollAudio_def Let_def)

lemma enrollAudio_success:
  "isInitialized (service a) \<Longrightarrow>
   \<not> length (audioBuffer (service a) @ pcm) < minBufferSize (service a) \<Longrightarrow>
   profiler (service a) = Some p \<Longrightarrow>
   enrollResponse eng (events a) (audioBuffer (service a) @ pcm) = Inr r \<Longrightarrow>
   enrollAudio eng a pcm =
     (Inr r, a\<lparr>service := (service a)\<lparr>audioBuffer := []\<rparr>,
               events := events a @ [ProfilerEnroll (audioBuffer (service a) @ pcm)]\<rparr>)"
  by (simp add: enrollAudio_def Let_def emit_def)

lemma enrollAudio_failure:
  "isInitialized (service a) \<Longrightarrow>
   \<not> length (audioBuffer (service a) @ pcm) < minBufferSize (service a) \<Longrightarrow>
   profiler (service a) = Some p \<Longrightarrow>
   enrollResponse eng (events a) (audioBuffer (service a) @ pcm) = Inl e \<Longrightarrow>
   enrollAudio eng a pcm =
     (Inl (''Enrollment failed: '' @ e),
      a\<lparr>service := (service a)\<lparr>audioBuffer := audioBuffer (service a) @ pcm\<rparr>,
        events := events a @ [ProfilerEnroll (audioBuffer (service a) @ pcm)]\<rparr>)"
  by (simp add: enrollAudio_def Let_def emit_def)

lemma newEvents_append: "events a' = events a @ es \<Longrightarrow> newEvents a a' = es"
  by (simp add: newEvents_def)

text \<open>
  C1, as the code has it. When the accumulated buffer has reached the threshold it is
  forwarded to the engine's enroll operation in one call. If that call succeeds, the
  buffer is empty afterwards; if it throws, the error is passed on and the buffer still
  holds the accumulated samples.
\<close>

theorem enrollAudio_clears_buffer_on_success_only:
  assumes "isInitialized (service a)" and "profiler (service a) = Some p"
    and "\<not> length (audioBuffer (service a) @ pcmData) < minBufferSize (service a)"
  shows "newEvents a (snd (enrollAudio eng a pcmData)) =
           [ProfilerEnroll (audioBuffer (service a) @ pcmData)] \<and>
         (\<forall>r. enrollResponse eng (events a) (audioBuffer (service a) @ pcmData) = Inr r \<longrightarrow>
            fst (enrollAudio eng a pcmData) = Inr r \<and>
            audioBuffer (service (snd (enrollAudio eng a pcmData))) = []) \<and>
         (\<forall>e. enrollResponse eng (events a) (audioBuffer (service a) @ pcmData) = Inl e \<longrightarrow>
            fst (enrollAudio eng a pcmData) = Inl (''Enrollment failed: '' @ e) \<and>
            audioBuffer (service (snd (enrollAudio eng a pcmData))) =
              audioBuffer (service a) @ pcmData)"
proof (cases "enrollResponse eng (events a) (audioBuffer (service a) @ pcmData)")
  case (Inl e)
  show ?thesis
    unfolding enrollAudio_failure [OF assms(1) assms(3) assms(2) Inl]
    by (simp add: Inl newEvents_append)
next
  case (Inr r)
  show ?thesis
    unfolding enrollAudio_success [OF assms(1) assms(3) assms(2) Inr]
    by (simp add: Inr newEvents_append)
qed

lemma enrollingApp_ready:
  "isInitialized (service enrollingApp) \<and>
   profiler (service enrollingApp) = Some \<lparr>minEnrollSamples = 16000\<rparr> \<and>
   \<not> length (audioBuffer (service enrollingApp) @ replicate 16000 (0 :: int16))
       < minBufferSize (service enrollingApp)"
  by (simp add: enrollingApp_def profilerInitialized_def newEagleService_def)

theorem enrollAudio_clears_buffer_on_success_only_witness:
  "isInitialized (service enrollingApp) \<and>
   profiler (service enrollingApp) = Some \<lparr>minEnrollSamples = 16000\<rparr> \<and>
   \<not> length (audioBuffer (service enrollingApp) @ replicate 16000 (0 :: int16))
       < minBufferSize (service enrollingApp) \<and>
   newEvents enrollingApp (snd (enrollAudio progressEngine enrollingApp (replicate 16000 0))) =
     [ProfilerEnroll (replicate 16000 0)] \<and>
   fst (enrollAudio progressEngine enrollingApp (replicate 16000 0)) =
     Inr \<lparr>percentage = 40, feedback = ''AUDIO_OK''\<rparr> \<and>
   audioBuffer (service (snd (enrollAudio progressEngine enrollingApp (replicate 16000 0)))) = []"
proof -
  have b: "audioBuffer (service enrollingApp) @ replicate 16000 (0 :: int16) = replicate 16000 0"
    by (simp add: enrollingApp_def profilerInitialized_def newEagleService_def)
  have r: "enrollResponse progressEngine (events enrollingApp) (replicate 16000 0) =
      Inr \<lparr>percentage = 40, feedback = ''AUDIO_OK''\<rparr>"
    by (simp add: progressEngine_def engineWith_def)
  from enrollingApp_ready
  have h1: "isInitialized (service enrollingApp)"
    and h2: "profiler (service enrollingApp) = Some \<lparr>minEnrollSamples = 16000\<rparr>"
    and h3: "\<not> length (audioBuffer (service enrollingApp) @ replicate 16000 (0 :: int16))
       < minBufferSize (service enrollingApp)"
    by blast+
  show ?thesis
    using enrollAudio_clears_buffer_on_success_only [OF h1 h2 h3, of progressEngine] h1 h2 h3 r
    unfolding b by blast
qed

text \<open>
  C1 as stated, that the buffer is empty after every forward, fails when the engine throws:
  the 16000 forwarded samples stay in the buffer.
\<close>

theorem enrollAudio_buffer_kept_on_engine_failure:
  "newEvents enrollingApp (snd (enrollAudio failingEngine enrollingApp (replicate 16000 0))) =
     [ProfilerEnroll (replicate 16000 0)] \<and>
   fst (enrollAudio failingEngine enrollingApp (replicate 16000 0)) =
     Inl ''Enrollment failed: Error: enroll failed'' \<and>
   length (audioBuffer (service (snd (enrollAudio failingEngine enrollingApp (replicate 16000 0)))))
     = 16000 \<and>
   length (audioBuffer (service (snd (enrollAudio failingEngine enrollingApp (replicate 16000 0)))))
     \<noteq> 0"
proof -
  have b: "audioBuffer (service enrollingApp) @ replicate 16000 (0 :: int16) = replicate 16000 0"
    by (simp add: enrollingApp_def profilerInitialized_def newEagleService_def)
  have r: "enrollResponse failingEngine (events enrollingApp) (replicate 16000 0) =
      Inl ''Error: enroll failed''"
    by (simp add: failingEngine_def engineWith_def)
  from enrollingApp_ready
  have h1: "isInitialized (service enrollingApp)"
    and h2: "profiler (service enrollingApp) = Some \<lparr>minEnrollSamples = 16000\<rparr>"
    and h3: "\<not> length (audioBuffer (service enrollingApp) @ replicate 16000 (0 :: int16))
       < minBufferSize (service enrollingApp)"
    by blast+
  have "enrollAudio failingEngine enrollingApp (replicate 16000 0) =
     (Inl (''Enrollment failed: '' @ ''Error: enroll failed''),
      enrollingApp\<lparr>service := (service enrollingApp)\<lparr>audioBuffer := replicate 16000 0\<rparr>,
        events := events enrollingApp @ [ProfilerEnroll (replicate 16000 0)]\<rparr>)"
    using enrollAudio_failure [OF h1 h3 h2, of failingEngine "''Error: enroll failed''"] r
    unfolding b by blast
  then show ?thesis by (simp add: newEvents_append)
qed

section \<open>The enrolment handler, case by case\<close>

lemma enrollmentFailed_events:
  "events (enrollmentFailed msg b) =
     events b @ StopRecording # (if onErrorProvided b then [OnError msg] else [])"
  by (simp add: enrollmentFailed_def notifyError_def stopRecording_def emit_def)

lemma enrollmentFailed_state:
  "enrollmentState (enrollmentFailed msg b) =
     (enrollmentState b)\<lparr>enrollError := Some msg, isEnrolling := False, isRecording := False\<rparr>"
  "recorder (enrollmentFailed msg b) = (recorder b)\<lparr>recIsRecording := False, recAudioLevel := 0\<rparr>"
  "storage (enrollmentFailed msg b) = storage b"
  "service (enrollmentFailed msg b) = service b"
  "speakerName (enrollmentFailed msg b) = speakerName b"
  by (simp_all add: enrollmentFailed_def notifyError_def stopRecording_def emit_def)

lemma handler_idle:
  "\<not> isEnrolling (enrollmentState a) \<Longrightarrow> enrollHandleAudioData eng fr a pcm = a"
  by (simp add: enrollHandleAudioData_def)

lemma handler_collecting:
  assumes "isEnrolling (enrollmentState a)" and "isInitialized (service a)"
    and "length (audioBuffer (service a) @ pcm) < minBufferSize (service a)"
  shows "enrollHandleAudioData eng fr a pcm =
     a\<lparr>service := (service a)\<lparr>audioBuffer := audioBuffer (service a) @ pcm\<rparr>,
       enrollmentState := (enrollmentState a)\<lparr>progress := 0, enrollError := None\<rparr>\<rparr>"
  using assms(1) by (simp add: enrollHandleAudioData_def enrollAudio_collecting [OF assms(2,3)])

lemma handler_progress:
  assumes "isEnrolling (enrollmentState a)" and "isInitialized (service a)"
    and "\<not> length (audioBuffer (service a) @ pcm) < minBufferSize (service a)"
    and "profiler (service a) = Some p"
    and "enrollResponse eng (events a) (audioBuffer (service a) @ pcm) = Inr r"
    and "\<not> 100 \<le> percentage r"
  shows "enrollHandleAudioData eng fr a pcm =
     a\<lparr>service := (service a)\<lparr>audioBuffer := []\<rparr>,
       events := events a @ [ProfilerEnroll (audioBuffer (service a) @ pcm)],
       enrollmentState := (enrollmentState a)\<lparr>progress := percentage r, enrollError := None\<rparr>\<rparr>"
  using assms(1,6)
  by (simp add: enrollHandleAudioData_def enrollAudio_success [OF assms(2,3,4,5)])

lemma handler_enroll_fails:
  assumes "isEnrolling (enrollmentState a)" and "isInitialized (service a)"
    and "\<not> length (audioBuffer (service a) @ pcm) < minBufferSize (service a)"
    and "profiler (service a) = Some p"
    and "enrollResponse eng (events a) (audioBuffer (service a) @ pcm) = Inl e"
  shows "enrollHandleAudioData eng fr a pcm =
     enrollmentFailed (''Enrollment failed: '' @ e)
       (a\<lparr>service := (service a)\<lparr>audioBuffer := audioBuffer (service a) @ pcm\<rparr>,
          events := events a @ [ProfilerEnroll (audioBuffer (service a) @ pcm)]\<rparr>)"
  using assms(1)
  by (simp add: enrollHandleAudioData_def enrollAudio_failure [OF assms(2,3,4,5)])

lemma handler_reaches_100:
  assumes "isEnrolling (enrollmentState a)" and "isInitialized (service a)"
    and "\<not> length (audioBuffer (service a) @ pcm) < minBufferSize (service a)"
    and "profiler (service a) = Some p"
    and "enrollResponse eng (events a) (audioBuffer (service a) @ pcm) = Inr r"
    and "100 \<le> percentage r"
  shows "enrollHandleAudioData eng fr a pcm =
     completeEnrollment eng fr
       (a\<lparr>service := (service a)\<lparr>audioBuffer := []\<rparr>,
          events := events a @ [ProfilerEnroll (audioBuffer (service a) @ pcm)],
          enrollmentState := (enrollmentState a)\<lparr>progress := percentage r, enrollError := None\<rparr>\<rparr>)"
  using assms(1,6)
  by (simp add: enrollHandleAudioData_def enrollAudio_success [OF assms(2,3,4,5)])

lemma exportProfile_ok:
  "isInitialized (service b) \<Longrightarrow> profiler (service b) = Some p \<Longrightarrow>
   exportResponse eng (events b) = Inr bytes \<Longrightarrow>
   exportProfile eng b = (Inr (packVoiceprint bytes), emit ProfilerExport b)"
  by (simp add: exportProfile_def)

lemma exportProfile_fails:
  "isInitialized (service b) \<Longrightarrow> profiler (service b) = Some p \<Longrightarrow>
   exportResponse eng (events b) = Inl e \<Longrightarrow>
   exportProfile eng b = (Inl (''Profile export failed: '' @ e), emit ProfilerExport b)"
  by (simp add: exportProfile_def)

lemma complete_export_fails:
  assumes "isInitialized (service b)" and "profiler (service b) = Some p"
    and "exportResponse eng (events b) = Inl e"
  shows "completeEnrollment eng fr b =
     enrollmentFailed (''Profile export failed: '' @ e) (emit ProfilerExport b)"
  by (simp add: completeEnrollment_def exportProfile_fails [OF assms])

lemma complete_save_fails:
  assumes "isInitialized (service b)" and "profiler (service b) = Some p"
    and "exportResponse eng (events b) = Inr bytes"
    and "saveSpeakerProfile (newProfile fr (speakerName b) (packVoiceprint bytes)) (storage b)
           = Inl msg"
  shows "completeEnrollment eng fr b = enrollmentFailed msg (emit ProfilerExport b)"
  using assms(4)
  by (simp add: completeEnrollment_def exportProfile_ok [OF assms(1,2,3)] emit_def)


section \<open>Collecting audio\<close>

lemma midEnrollmentApp_eq:
  "midEnrollmentApp =
     enrollingApp\<lparr>service := (service enrollingApp)\<lparr>audioBuffer := []\<rparr>,
       events := [ProfilerEnroll (replicate 16000 0)],
       enrollmentState := (enrollmentState enrollingApp)\<lparr>progress := 40, enrollError := None\<rparr>\<rparr>"
proof -
  have e: "isEnrolling (enrollmentState enrollingApp)"
    by (simp add: enrollingApp_def idleEnrollment_def profilerInitialized_def
        newEagleService_def)
  have b: "audioBuffer (service enrollingApp) @ replicate 16000 (0 :: int16) = replicate 16000 0"
    and ev: "events enrollingApp = []"
    by (simp_all add: enrollingApp_def profilerInitialized_def newEagleService_def)
  have r: "enrollResponse progressEngine (events enrollingApp)
      (audioBuffer (service enrollingApp) @ replicate 16000 0) =
      Inr \<lparr>percentage = 40, feedback = ''AUDIO_OK''\<rparr>"
    by (simp add: progressEngine_def engineWith_def)
  have p: "\<not> 100 \<le> percentage \<lparr>percentage = 40, feedback = ''AUDIO_OK''\<rparr>" by simp
  from enrollingApp_ready
  have h1: "isInitialized (service enrollingApp)"
    and h2: "profiler (service enrollingApp) = Some \<lparr>minEnrollSamples = 16000\<rparr>"
    and h3: "\<not> length (audioBuffer (service enrollingApp) @ replicate 16000 (0 :: int16))
       < minBufferSize (service enrollingApp)"
    by blast+
  show ?thesis
    unfolding midEnrollmentApp_def handler_progress [OF e h1 h3 h2 r p]
    by (simp add: b ev)
qed

text \<open>
  C2, as the code has it. While the accumulated buffer is shorter than
  \<^verbatim>\<open>minBufferSize\<close>, \<^verbatim>\<open>enrollAudio\<close> makes no engine call, keeps the samples, and
  returns the status \<^verbatim>\<open>COLLECTING_AUDIO\<close> with percentage 0; the handler stores that
  percentage, so the progress it reports becomes 0, and the session goes on.
\<close>

theorem collecting_reports_zero_progress:
  assumes "isEnrolling (enrollmentState a)" and "isInitialized (service a)"
    and "length (audioBuffer (service a) @ pcmData) < minBufferSize (service a)"
  shows "fst (enrollAudio eng a pcmData) =
           Inr \<lparr>percentage = 0, feedback = ''COLLECTING_AUDIO''\<rparr> \<and>
         newEvents a (snd (enrollAudio eng a pcmData)) = [] \<and>
         audioBuffer (service (snd (enrollAudio eng a pcmData))) =
           audioBuffer (service a) @ pcmData \<and>
         newEvents a (enrollHandleAudioData eng fr a pcmData) = [] \<and>
         progress (enrollmentState (enrollHandleAudioData eng fr a pcmData)) = 0 \<and>
         isEnrolling (enrollmentState (enrollHandleAudioData eng fr a pcmData))"
proof -
  let ?kept = "a\<lparr>service := (service a)\<lparr>audioBuffer := audioBuffer (service a) @ pcmData\<rparr>\<rparr>"
  have call: "enrollAudio eng a pcmData =
      (Inr \<lparr>percentage = 0, feedback = ''COLLECTING_AUDIO''\<rparr>, ?kept)"
    using assms(2,3) by (rule enrollAudio_collecting)
  have noCall: "newEvents a (snd (enrollAudio eng a pcmData)) = []"
    unfolding call by (simp add: newEvents_def)
  have handled: "enrollHandleAudioData eng fr a pcmData =
      ?kept\<lparr>enrollmentState := (enrollmentState a)\<lparr>progress := 0, enrollError := None\<rparr>\<rparr>"
    using handler_collecting [OF assms, of eng fr] by simp
  have quiet: "newEvents a (enrollHandleAudioData eng fr a pcmData) = []"
    unfolding handled by (simp add: newEvents_def)
  have zero: "progress (enrollmentState (enrollHandleAudioData eng fr a pcmData)) = 0"
    unfolding handled by simp
  have still: "isEnrolling (enrollmentState (enrollHandleAudioData eng fr a pcmData))"
    unfolding handled using assms(1) by simp
  from call noCall quiet zero still show ?thesis by simp
qed

lemma midEnrollmentApp_collecting:
  "isEnrolling (enrollmentState midEnrollmentApp) \<and>
   isInitialized (service midEnrollmentApp) \<and>
   length (audioBuffer (service midEnrollmentApp) @ replicate 512 (0 :: int16))
     < minBufferSize (service midEnrollmentApp) \<and>
   progress (enrollmentState midEnrollmentApp) = 40"
  unfolding midEnrollmentApp_eq
  by (simp add: enrollingApp_def idleEnrollment_def profilerInitialized_def newEagleService_def)

theorem collecting_reports_zero_progress_witness:
  "isEnrolling (enrollmentState midEnrollmentApp) \<and>
   isInitialized (service midEnrollmentApp) \<and>
   length (audioBuffer (service midEnrollmentApp) @ replicate 512 (0 :: int16))
     < minBufferSize (service midEnrollmentApp) \<and>
   fst (enrollAudio progressEngine midEnrollmentApp (replicate 512 0)) =
     Inr \<lparr>percentage = 0, feedback = ''COLLECTING_AUDIO''\<rparr> \<and>
   newEvents midEnrollmentApp
     (enrollHandleAudioData progressEngine fresh0 midEnrollmentApp (replicate 512 0)) = [] \<and>
   progress (enrollmentState
     (enrollHandleAudioData progressEngine fresh0 midEnrollmentApp (replicate 512 0))) = 0"
proof -
  from midEnrollmentApp_collecting
  have h1: "isEnrolling (enrollmentState midEnrollmentApp)"
    and h2: "isInitialized (service midEnrollmentApp)"
    and h3: "length (audioBuffer (service midEnrollmentApp) @ replicate 512 (0 :: int16))
       < minBufferSize (service midEnrollmentApp)"
    by blast+
  show ?thesis
    using collecting_reports_zero_progress [OF h1 h2 h3, of progressEngine fresh0] h1 h2 h3
    by blast
qed

text \<open>
  C2 as stated, that the reported progress stays as it was, fails once the engine has reported
  progress: after a first second of audio the progress is 40, and the next frame of 512
  samples, for which no engine call is made, sets it to 0.
\<close>

theorem collecting_changes_progress:
  "isEnrolling (enrollmentState midEnrollmentApp) \<and>
   length (audioBuffer (service midEnrollmentApp) @ replicate 512 (0 :: int16))
     < minBufferSize (service midEnrollmentApp) \<and>
   progress (enrollmentState midEnrollmentApp) = 40 \<and>
   newEvents midEnrollmentApp
     (enrollHandleAudioData progressEngine fresh0 midEnrollmentApp (replicate 512 0)) = [] \<and>
   progress (enrollmentState
     (enrollHandleAudioData progressEngine fresh0 midEnrollmentApp (replicate 512 0))) = 0 \<and>
   progress (enrollmentState
     (enrollHandleAudioData progressEngine fresh0 midEnrollmentApp (replicate 512 0)))
     \<noteq> progress (enrollmentState midEnrollmentApp)"
proof -
  from midEnrollmentApp_collecting
  have h1: "isEnrolling (enrollmentState midEnrollmentApp)"
    and h2: "isInitialized (service midEnrollmentApp)"
    and h3: "length (audioBuffer (service midEnrollmentApp) @ replicate 512 (0 :: int16))
       < minBufferSize (service midEnrollmentApp)"
    and h4: "progress (enrollmentState midEnrollmentApp) = 40"
    by blast+
  have "enrollHandleAudioData progressEngine fresh0 midEnrollmentApp (replicate 512 0) =
     midEnrollmentApp\<lparr>service := (service midEnrollmentApp)
         \<lparr>audioBuffer := audioBuffer (service midEnrollmentApp) @ replicate 512 0\<rparr>,
       enrollmentState := (enrollmentState midEnrollmentApp)\<lparr>progress := 0, enrollError := None\<rparr>\<rparr>"
    using h1 h2 h3 by (rule handler_collecting)
  then show ?thesis using h1 h3 h4 by (simp add: newEvents_def)
qed

section \<open>Failures during enrolment\<close>

lemma failure_conclusion:
  assumes a': "a' = enrollmentFailed msg b"
    and ev: "events b = events a @ pre"
    and pre: "set pre \<subseteq> {ProfilerEnroll buf, ProfilerExport}"
    and st: "storage b = storage a"
    and cb: "onErrorProvided b = onErrorProvided a"
    and su: "success (enrollmentState b) = success (enrollmentState a)"
  shows "\<not> isEnrolling (enrollmentState a') \<and> \<not> isRecording (enrollmentState a') \<and>
         \<not> recIsRecording (recorder a') \<and>
         StopRecording \<in> set (newEvents a a') \<and>
         enrollError (enrollmentState a') = Some msg \<and>
         (onErrorProvided a \<longrightarrow> OnError msg \<in> set (newEvents a a')) \<and>
         storage a' = storage a \<and>
         (\<forall>sp. StorePut sp \<notin> set (newEvents a a')) \<and>
         (\<forall>pr. OnEnrollmentComplete pr \<notin> set (newEvents a a')) \<and>
         success (enrollmentState a') = success (enrollmentState a) \<and>
         ProfilerReset \<notin> set (newEvents a a')"
proof -
  have n: "newEvents a a' = pre @ StopRecording # (if onErrorProvided a then [OnError msg] else [])"
    by (rule newEvents_append) (simp add: a' enrollmentFailed_events ev cb)
  have p1: "\<forall>sp. StorePut sp \<notin> set pre" "\<forall>pr. OnEnrollmentComplete pr \<notin> set pre"
    "ProfilerReset \<notin> set pre"
    using pre by auto
  show ?thesis
    unfolding n using p1 by (simp add: a' enrollmentFailed_state st su)
qed

text \<open>
  C3, as the code has it. In an enrolment session, when the engine's enroll call throws,
  or the engine reports 100 and then its export call throws or the store refuses the
  profile, the handler stops the recording, leaves the Enrolling state, records the
  error and passes it to the error callback when there is one; the store is unchanged
  and no profile is written or announced. The handler does not reset the engine's
  profiler on this path.
\<close>

theorem enrollment_failure_stops_session:
  assumes "isEnrolling (enrollmentState a)" and "isInitialized (service a)"
    and "profiler (service a) = Some p"
    and "\<not> length (audioBuffer (service a) @ pcmData) < minBufferSize (service a)"
    and "(\<exists>e. enrollResponse eng (events a) (audioBuffer (service a) @ pcmData) = Inl e \<and>
              msg = ''Enrollment failed: '' @ e) \<or>
         (\<exists>r e. enrollResponse eng (events a) (audioBuffer (service a) @ pcmData) = Inr r \<and>
              100 \<le> percentage r \<and>
              exportResponse eng (events a @ [ProfilerEnroll (audioBuffer (service a) @ pcmData)])
                = Inl e \<and>
              msg = ''Profile export failed: '' @ e) \<or>
         (\<exists>r bytes. enrollResponse eng (events a) (audioBuffer (service a) @ pcmData) = Inr r \<and>
              100 \<le> percentage r \<and>
              exportResponse eng (events a @ [ProfilerEnroll (audioBuffer (service a) @ pcmData)])
                = Inr bytes \<and>
              saveSpeakerProfile (newProfile fr (speakerName a) (packVoiceprint bytes)) (storage a)
                = Inl msg)"
    and "a' = enrollHandleAudioData eng fr a pcmData"
  shows "\<not> isEnrolling (enrollmentState a') \<and> \<not> isRecording (enrollmentState a') \<and>
         \<not> recIsRecording (recorder a') \<and>
         StopRecording \<in> set (newEvents a a') \<and>
         enrollError (enrollmentState a') = Some msg \<and>
         (onErrorProvided a \<longrightarrow> OnError msg \<in> set (newEvents a a')) \<and>
         storage a' = storage a \<and>
         (\<forall>sp. StorePut sp \<notin> set (newEvents a a')) \<and>
         (\<forall>pr. OnEnrollmentComplete pr \<notin> set (newEvents a a')) \<and>
         success (enrollmentState a') = success (enrollmentState a) \<and>
         ProfilerReset \<notin> set (newEvents a a')"
proof -
  let ?buf = "audioBuffer (service a) @ pcmData"
  from assms(5) consider
    (enroll) e where "enrollResponse eng (events a) ?buf = Inl e" "msg = ''Enrollment failed: '' @ e"
  | (export) r e where "enrollResponse eng (events a) ?buf = Inr r" "100 \<le> percentage r"
      "exportResponse eng (events a @ [ProfilerEnroll ?buf]) = Inl e"
      "msg = ''Profile export failed: '' @ e"
  | (save) r bytes where "enrollResponse eng (events a) ?buf = Inr r" "100 \<le> percentage r"
      "exportResponse eng (events a @ [ProfilerEnroll ?buf]) = Inr bytes"
      "saveSpeakerProfile (newProfile fr (speakerName a) (packVoiceprint bytes)) (storage a) = Inl msg"
    by blast
  then show ?thesis
  proof cases
    case enroll
    let ?b = "a\<lparr>service := (service a)\<lparr>audioBuffer := ?buf\<rparr>,
               events := events a @ [ProfilerEnroll ?buf]\<rparr>"
    have "a' = enrollmentFailed msg ?b"
      unfolding assms(6) enroll(2)
      using assms(1,2,4,3) enroll(1) by (rule handler_enroll_fails)
    moreover have "events ?b = events a @ [ProfilerEnroll ?buf]" by simp
    moreover have "set [ProfilerEnroll ?buf] \<subseteq> {ProfilerEnroll ?buf, ProfilerExport}" by simp
    moreover have "storage ?b = storage a" "onErrorProvided ?b = onErrorProvided a"
      "success (enrollmentState ?b) = success (enrollmentState a)" by simp_all
    ultimately show ?thesis by (rule failure_conclusion)
  next
    case export
    let ?c = "a\<lparr>service := (service a)\<lparr>audioBuffer := []\<rparr>,
               events := events a @ [ProfilerEnroll ?buf],
               enrollmentState := (enrollmentState a)
                 \<lparr>progress := percentage r, enrollError := None\<rparr>\<rparr>"
    have h: "enrollHandleAudioData eng fr a pcmData = completeEnrollment eng fr ?c"
      using assms(1,2,4,3) export(1,2) by (rule handler_reaches_100)
    have i: "isInitialized (service ?c)" and p: "profiler (service ?c) = Some p"
      and x: "exportResponse eng (events ?c) = Inl e"
      using assms(2,3) export(3) by simp_all
    have "a' = enrollmentFailed msg (emit ProfilerExport ?c)"
      unfolding assms(6) h export(4) using i p x by (rule complete_export_fails)
    moreover have "events (emit ProfilerExport ?c) = events a @ [ProfilerEnroll ?buf, ProfilerExport]"
      by (simp add: emit_def)
    moreover have "set [ProfilerEnroll ?buf, ProfilerExport] \<subseteq> {ProfilerEnroll ?buf, ProfilerExport}"
      by simp
    moreover have "storage (emit ProfilerExport ?c) = storage a"
      "onErrorProvided (emit ProfilerExport ?c) = onErrorProvided a"
      "success (enrollmentState (emit ProfilerExport ?c)) = success (enrollmentState a)"
      by (simp_all add: emit_def)
    ultimately show ?thesis by (rule failure_conclusion)
  next
    case save
    let ?c = "a\<lparr>service := (service a)\<lparr>audioBuffer := []\<rparr>,
               events := events a @ [ProfilerEnroll ?buf],
               enrollmentState := (enrollmentState a)
                 \<lparr>progress := percentage r, enrollError := None\<rparr>\<rparr>"
    have h: "enrollHandleAudioData eng fr a pcmData = completeEnrollment eng fr ?c"
      using assms(1,2,4,3) save(1,2) by (rule handler_reaches_100)
    have i: "isInitialized (service ?c)" and p: "profiler (service ?c) = Some p"
      and x: "exportResponse eng (events ?c) = Inr bytes"
      and s: "saveSpeakerProfile (newProfile fr (speakerName ?c) (packVoiceprint bytes)) (storage ?c)
           = Inl msg"
      using assms(2,3) save(3,4) by simp_all
    have "a' = enrollmentFailed msg (emit ProfilerExport ?c)"
      unfolding assms(6) h using i p x s by (rule complete_save_fails)
    moreover have "events (emit ProfilerExport ?c) = events a @ [ProfilerEnroll ?buf, ProfilerExport]"
      by (simp add: emit_def)
    moreover have "set [ProfilerEnroll ?buf, ProfilerExport] \<subseteq> {ProfilerEnroll ?buf, ProfilerExport}"
      by simp
    moreover have "storage (emit ProfilerExport ?c) = storage a"
      "onErrorProvided (emit ProfilerExport ?c) = onErrorProvided a"
      "success (enrollmentState (emit ProfilerExport ?c)) = success (enrollmentState a)"
      by (simp_all add: emit_def)
    ultimately show ?thesis by (rule failure_conclusion)
  qed
qed

lemma enrollingApp_fails:
  "isEnrolling (enrollmentState enrollingApp) \<and>
   enrollResponse failingEngine (events enrollingApp)
     (audioBuffer (service enrollingApp) @ replicate 16000 0) = Inl ''Error: enroll failed''"
  by (simp add: enrollingApp_def idleEnrollment_def failingEngine_def engineWith_def
      profilerInitialized_def newEagleService_def)

theorem enrollment_failure_stops_session_witness:
  "isEnrolling (enrollmentState enrollingApp) \<and>
   isInitialized (service enrollingApp) \<and>
   profiler (service enrollingApp) = Some \<lparr>minEnrollSamples = 16000\<rparr> \<and>
   \<not> length (audioBuffer (service enrollingApp) @ replicate 16000 (0 :: int16))
       < minBufferSize (service enrollingApp) \<and>
   enrollResponse failingEngine (events enrollingApp)
     (audioBuffer (service enrollingApp) @ replicate 16000 0) = Inl ''Error: enroll failed'' \<and>
   \<not> isEnrolling (enrollmentState
        (enrollHandleAudioData failingEngine fresh0 enrollingApp (replicate 16000 0))) \<and>
   \<not> recIsRecording (recorder
        (enrollHandleAudioData failingEngine fresh0 enrollingApp (replicate 16000 0))) \<and>
   enrollError (enrollmentState
        (enrollHandleAudioData failingEngine fresh0 enrollingApp (replicate 16000 0)))
     = Some ''Enrollment failed: Error: enroll failed'' \<and>
   storage (enrollHandleAudioData failingEngine fresh0 enrollingApp (replicate 16000 0))
     = storage enrollingApp"
proof -
  from enrollingApp_ready
  have h2: "isInitialized (service enrollingApp)"
    and h3: "profiler (service enrollingApp) = Some \<lparr>minEnrollSamples = 16000\<rparr>"
    and h4: "\<not> length (audioBuffer (service enrollingApp) @ replicate 16000 (0 :: int16))
       < minBufferSize (service enrollingApp)"
    by blast+
  from enrollingApp_fails
  have h1: "isEnrolling (enrollmentState enrollingApp)"
    and r: "enrollResponse failingEngine (events enrollingApp)
     (audioBuffer (service enrollingApp) @ replicate 16000 0) = Inl ''Error: enroll failed''"
    by blast+
  have m: "''Enrollment failed: Error: enroll failed'' = ''Enrollment failed: '' @ ''Error: enroll failed''"
    by simp
  have h5: "(\<exists>e. enrollResponse failingEngine (events enrollingApp)
               (audioBuffer (service enrollingApp) @ replicate 16000 0) = Inl e \<and>
              ''Enrollment failed: Error: enroll failed'' = ''Enrollment failed: '' @ e) \<or>
         (\<exists>r e. enrollResponse failingEngine (events enrollingApp)
               (audioBuffer (service enrollingApp) @ replicate 16000 0) = Inr r \<and>
              100 \<le> percentage r \<and>
              exportResponse failingEngine (events enrollingApp @
                [ProfilerEnroll (audioBuffer (service enrollingApp) @ replicate 16000 0)])
                = Inl e \<and>
              ''Enrollment failed: Error: enroll failed'' = ''Profile export failed: '' @ e) \<or>
         (\<exists>r bytes. enrollResponse failingEngine (events enrollingApp)
               (audioBuffer (service enrollingApp) @ replicate 16000 0) = Inr r \<and>
              100 \<le> percentage r \<and>
              exportResponse failingEngine (events enrollingApp @
                [ProfilerEnroll (audioBuffer (service enrollingApp) @ replicate 16000 0)])
                = Inr bytes \<and>
              saveSpeakerProfile (newProfile fresh0 (speakerName enrollingApp) (packVoiceprint bytes))
                (storage enrollingApp)
                = Inl ''Enrollment failed: Error: enroll failed'')"
    using r m by blast
  show ?thesis
    using enrollment_failure_stops_session [OF h1 h2 h3 h4 h5 refl] h1 h2 h3 h4 r
    by blast
qed

text \<open>
  C3 as stated, that the engine profiler is reset when enrolment fails, does not hold: when the
  engine's enroll call throws, the handler stops the recording and reports the error, and
  that is all; the service still holds the 16000 samples that a reset would clear.
\<close>

theorem enrollment_failure_without_reset:
  "enrollError (enrollmentState
      (enrollHandleAudioData failingEngine fresh0 enrollingApp (replicate 16000 0)))
     = Some ''Enrollment failed: Error: enroll failed'' \<and>
   events (enrollHandleAudioData failingEngine fresh0 enrollingApp (replicate 16000 0)) =
     [ProfilerEnroll (replicate 16000 0), StopRecording,
      OnError ''Enrollment failed: Error: enroll failed''] \<and>
   ProfilerReset \<notin> set (events
      (enrollHandleAudioData failingEngine fresh0 enrollingApp (replicate 16000 0))) \<and>
   length (audioBuffer (service
      (enrollHandleAudioData failingEngine fresh0 enrollingApp (replicate 16000 0)))) = 16000"
proof -
  from enrollingApp_ready
  have h2: "isInitialized (service enrollingApp)"
    and h3: "profiler (service enrollingApp) = Some \<lparr>minEnrollSamples = 16000\<rparr>"
    and h4: "\<not> length (audioBuffer (service enrollingApp) @ replicate 16000 (0 :: int16))
       < minBufferSize (service enrollingApp)"
    by blast+
  from enrollingApp_fails
  have h1: "isEnrolling (enrollmentState enrollingApp)"
    and r: "enrollResponse failingEngine (events enrollingApp)
     (audioBuffer (service enrollingApp) @ replicate 16000 0) = Inl ''Error: enroll failed''"
    by blast+
  have "enrollHandleAudioData failingEngine fresh0 enrollingApp (replicate 16000 0) =
     enrollmentFailed (''Enrollment failed: '' @ ''Error: enroll failed'')
       (enrollingApp\<lparr>service := (service enrollingApp)
            \<lparr>audioBuffer := audioBuffer (service enrollingApp) @ replicate 16000 0\<rparr>,
          events := events enrollingApp @
            [ProfilerEnroll (audioBuffer (service enrollingApp) @ replicate 16000 0)]\<rparr>)"
    using h1 h2 h4 h3 r by (rule handler_enroll_fails)
  then show ?thesis
    by (simp add: enrollmentFailed_events enrollmentFailed_state enrollingApp_def
        profilerInitialized_def newEagleService_def)
qed

text \<open>The paths on which the handler does reset the profiler: the user's stop and the form reset.\<close>

lemma stopEnrollment_resets:
  "profiler (service a) = Some p \<Longrightarrow>
   newEvents a (stopEnrollment a) = [StopRecording, ProfilerReset] \<and>
   audioBuffer (service (stopEnrollment a)) = [] \<and>
   \<not> isEnrolling (enrollmentState (stopEnrollment a))"
  by (simp add: stopEnrollment_def resetProfiler_def stopRecording_def emit_def newEvents_def)

lemma resetForm_resets:
  "profiler (service a) = Some p \<Longrightarrow>
   newEvents a (resetForm a) = [ProfilerReset] \<and> audioBuffer (service (resetForm a)) = []"
  by (simp add: resetForm_def resetProfiler_def emit_def newEvents_def)

section \<open>Completion of an enrolment\<close>

lemma digitChar_inj: "d < 10 \<Longrightarrow> d' < 10 \<Longrightarrow> digitChar d = digitChar d' \<Longrightarrow> d = d'"
proof -
  assume d: "d < 10" and d': "d' < 10" and eq: "digitChar d = digitChar d'"
  have "distinct ''0123456789''" by simp
  moreover have "d < length ''0123456789''" "d' < length ''0123456789''" using d d' by simp_all
  ultimately show "d = d'" using eq unfolding digitChar_def by (simp only: nth_eq_iff_index_eq)
qed

lemma digitChar_digit: "d < 10 \<Longrightarrow> digitChar d \<in> set ''0123456789''"
  unfolding digitChar_def by (rule nth_mem) simp

lemma showNat_digits: "set (showNat n) \<subseteq> set ''0123456789''"
proof (induction n rule: showNat.induct)
  case (1 n)
  show ?case
  proof (cases "n < 10")
    case True
    then show ?thesis using digitChar_digit [of n] by (subst showNat.simps) simp
  next
    case False
    have "n mod 10 < 10" by simp
    with False "1.IH" digitChar_digit [of "n mod 10"] show ?thesis
      by (subst showNat.simps) simp
  qed
qed

lemma showNat_nonempty: "showNat n \<noteq> []"
  by (subst showNat.simps) simp

lemma showNat_inj: "showNat n = showNat m \<Longrightarrow> n = m"
proof (induction n arbitrary: m rule: showNat.induct)
  case (1 n)
  show ?case
  proof (cases "n < 10")
    case n: True
    show ?thesis
    proof (cases "m < 10")
      case True
      with n "1.prems" have "digitChar n = digitChar m"
        by (subst (asm) showNat.simps, subst (asm) (2) showNat.simps) simp
      with n True show ?thesis by (rule digitChar_inj)
    next
      case False
      with n "1.prems" have "[digitChar n] = showNat (m div 10) @ [digitChar (m mod 10)]"
        by (subst (asm) showNat.simps, subst (asm) (2) showNat.simps) simp
      then have "showNat (m div 10) = []" by simp
      with showNat_nonempty show ?thesis by blast
    qed
  next
    case n: False
    show ?thesis
    proof (cases "m < 10")
      case True
      with n "1.prems" have "showNat (n div 10) @ [digitChar (n mod 10)] = [digitChar m]"
        by (subst (asm) showNat.simps, subst (asm) (2) showNat.simps) simp
      then have "showNat (n div 10) = []" by simp
      with showNat_nonempty show ?thesis by blast
    next
      case False
      with n "1.prems" have "showNat (n div 10) @ [digitChar (n mod 10)] =
          showNat (m div 10) @ [digitChar (m mod 10)]"
        by (subst (asm) showNat.simps, subst (asm) (2) showNat.simps) simp
      then have a: "showNat (n div 10) = showNat (m div 10)"
        and b: "digitChar (n mod 10) = digitChar (m mod 10)" by simp_all
      from "1.IH" [OF n a] have "n div 10 = m div 10" .
      moreover have "n mod 10 = m mod 10"
        by (rule digitChar_inj [OF _ _ b]) simp_all
      ultimately show ?thesis by (metis div_mult_mod_eq)
    qed
  qed
qed

lemma speakerId_inj: "speakerId t s = speakerId t' s' \<Longrightarrow> t = t' \<and> s = s'"
proof -
  assume "speakerId t s = speakerId t' s'"
  then have eq: "showNat t @ CHR ''_'' # s = showNat t' @ CHR ''_'' # s'"
    by (simp add: speakerId_def)
  have nd: "CHR ''_'' \<notin> set ''0123456789''" by simp
  have p: "\<forall>c\<in>set (showNat k). c \<noteq> CHR ''_''" for k
    using showNat_digits [of k] nd by blast
  have "takeWhile (\<lambda>c. c \<noteq> CHR ''_'') (showNat k @ CHR ''_'' # u) = showNat k" for k u
    using p [of k] by (simp add: takeWhile_append2)
  with eq have "showNat t = showNat t'" by metis
  then have "t = t'" by (rule showNat_inj)
  with eq show ?thesis by simp
qed








section \<open>Failures during recognition\<close>

lemma recognizeAudio_effect:
  "\<exists>es. snd (recognizeAudio eng a pcm) = a\<lparr>events := events a @ es\<rparr> \<and> StopRecording \<notin> set es"
proof (cases "isInitialized (service a)")
  case False
  then have "snd (recognizeAudio eng a pcm) = a\<lparr>events := events a @ []\<rparr>"
    by (simp add: recognizeAudio_def)
  then show ?thesis by (metis empty_iff empty_set)
next
  case True
  show ?thesis
  proof (cases "recognizer (service a)")
    case None
    with True have "snd (recognizeAudio eng a pcm) = a\<lparr>events := events a @ []\<rparr>"
      by (simp add: recognizeAudio_def)
    then show ?thesis by (metis empty_iff empty_set)
  next
    case (Some r)
    have "snd (recognizeAudio eng a pcm) =
        a\<lparr>events := events a @ [RecognizerProcess (adjustFrame (expectedFrameLength r) pcm)]\<rparr>"
      unfolding recognizeAudio_ready [OF True Some] by (simp add: emit_def)
    moreover have "StopRecording \<notin> set [RecognizerProcess (adjustFrame (expectedFrameLength r) pcm)]"
      by simp
    ultimately show ?thesis by blast
  qed
qed

lemma recog_handler_effect:
  "\<exists>es. events (recogHandleAudioData eng a pcm) = events a @ es \<and> StopRecording \<notin> set es \<and>
        isRecognizing (recognitionState (recogHandleAudioData eng a pcm))
          = isRecognizing (recognitionState a) \<and>
        isListening (recognitionState (recogHandleAudioData eng a pcm))
          = isListening (recognitionState a) \<and>
        recorder (recogHandleAudioData eng a pcm) = recorder a \<and>
        service (recogHandleAudioData eng a pcm) = service a"
proof (cases "isRecognizing (recognitionState a)")
  case False
  then have "recogHandleAudioData eng a pcm = a" by (simp add: recogHandleAudioData_def)
  then show ?thesis by simp
next
  case True
  obtain es where es: "snd (recognizeAudio eng a pcm) = a\<lparr>events := events a @ es\<rparr>"
    "StopRecording \<notin> set es"
    using recognizeAudio_effect by blast
  show ?thesis
  proof (cases "fst (recognizeAudio eng a pcm)")
    case (Inl msg)
    then have r: "recognizeAudio eng a pcm = (Inl msg, a\<lparr>events := events a @ es\<rparr>)"
      using es(1) by (metis prod.collapse)
    have "events (recogHandleAudioData eng a pcm) =
        events a @ (es @ (if onErrorProvided a then [OnError msg] else []))"
      using True by (simp add: recogHandleAudioData_def r notifyError_def emit_def)
    moreover have "StopRecording \<notin> set (es @ (if onErrorProvided a then [OnError msg] else []))"
      using es(2) by simp
    moreover have "isRecognizing (recognitionState (recogHandleAudioData eng a pcm))
          = isRecognizing (recognitionState a)"
      "isListening (recognitionState (recogHandleAudioData eng a pcm))
          = isListening (recognitionState a)"
      "recorder (recogHandleAudioData eng a pcm) = recorder a"
      "service (recogHandleAudioData eng a pcm) = service a"
      using True by (simp_all add: recogHandleAudioData_def r notifyError_def emit_def)
    ultimately show ?thesis by blast
  next
    case (Inr res)
    then have r: "recognizeAudio eng a pcm = (Inr res, a\<lparr>events := events a @ es\<rparr>)"
      using es(1) by (metis prod.collapse)
    let ?n = "getSpeakerName (service a) (speakerIndex res)"
    have "events (recogHandleAudioData eng a pcm) =
        events a @ (es @ (if onSpeakerIdentifiedProvided a \<and> ?n \<noteq> ''Unknown''
                          then [OnSpeakerIdentified ?n (resultConfidence res)] else []))"
      using True by (simp add: recogHandleAudioData_def r emit_def Let_def)
    moreover have "StopRecording \<notin> set (es @ (if onSpeakerIdentifiedProvided a \<and> ?n \<noteq> ''Unknown''
                          then [OnSpeakerIdentified ?n (resultConfidence res)] else []))"
      using es(2) by simp
    moreover have "isRecognizing (recognitionState (recogHandleAudioData eng a pcm))
          = isRecognizing (recognitionState a)"
      "isListening (recognitionState (recogHandleAudioData eng a pcm))
          = isListening (recognitionState a)"
      "recorder (recogHandleAudioData eng a pcm) = recorder a"
      "service (recogHandleAudioData eng a pcm) = service a"
      using True by (simp_all add: recogHandleAudioData_def r emit_def Let_def)
    ultimately show ?thesis by blast
  qed
qed

lemma recognizeFrames_effect:
  "\<exists>es. events (recognizeFrames eng a frames) = events a @ es \<and> StopRecording \<notin> set es \<and>
        isRecognizing (recognitionState (recognizeFrames eng a frames))
          = isRecognizing (recognitionState a) \<and>
        recorder (recognizeFrames eng a frames) = recorder a \<and>
        service (recognizeFrames eng a frames) = service a"
proof (induction frames arbitrary: a)
  case Nil
  show ?case by (simp add: recognizeFrames_def)
next
  case (Cons f frames)
  let ?b = "recogHandleAudioData eng a f"
  have step: "recognizeFrames eng a (f # frames) = recognizeFrames eng ?b frames"
    by (simp add: recognizeFrames_def)
  obtain es1 where 1: "events ?b = events a @ es1" "StopRecording \<notin> set es1"
    "isRecognizing (recognitionState ?b) = isRecognizing (recognitionState a)"
    "recorder ?b = recorder a" "service ?b = service a"
    using recog_handler_effect [of eng a f] by blast
  obtain es2 where 2: "events (recognizeFrames eng ?b frames) = events ?b @ es2"
    "StopRecording \<notin> set es2"
    "isRecognizing (recognitionState (recognizeFrames eng ?b frames))
       = isRecognizing (recognitionState ?b)"
    "recorder (recognizeFrames eng ?b frames) = recorder ?b"
    "service (recognizeFrames eng ?b frames) = service ?b"
    using Cons.IH [of ?b] by blast
  have "events (recognizeFrames eng a (f # frames)) = events a @ (es1 @ es2)"
    "StopRecording \<notin> set (es1 @ es2)"
    using 1 2 step by simp_all
  moreover have "isRecognizing (recognitionState (recognizeFrames eng a (f # frames)))
          = isRecognizing (recognitionState a)"
    "recorder (recognizeFrames eng a (f # frames)) = recorder a"
    "service (recognizeFrames eng a (f # frames)) = service a"
    using 1 2 step by simp_all
  ultimately show ?case by blast
qed

lemma recog_handler_forwards:
  assumes "isRecognizing (recognitionState a)" and "isInitialized (service a)"
    and "recognizer (service a) = Some r"
  shows "RecognizerProcess (adjustFrame (expectedFrameLength r) f)
           \<in> set (newEvents a (recogHandleAudioData eng a f))"
proof -
  let ?e = "RecognizerProcess (adjustFrame (expectedFrameLength r) f)"
  have ra: "recognizeAudio eng a f =
     (case processResponse eng (events a) (adjustFrame (expectedFrameLength r) f) of
        Inl e \<Rightarrow> Inl (''Recognition failed: '' @ e)
      | Inr scores \<Rightarrow> Inr (decide scores),
      emit ?e a)"
    using assms(2,3) by (rule recognizeAudio_ready)
  have "\<exists>es. events (recogHandleAudioData eng a f) = events a @ ?e # es"
    using assms(1)
    by (cases "processResponse eng (events a) (adjustFrame (expectedFrameLength r) f)")
       (simp_all add: recogHandleAudioData_def ra notifyError_def emit_def Let_def)
  then show ?thesis by (auto simp add: newEvents_def)
qed

lemma recognizeFrames_forwards:
  assumes "isRecognizing (recognitionState a)" and "isInitialized (service a)"
    and "recognizer (service a) = Some r" and "f \<in> set frames"
  shows "RecognizerProcess (adjustFrame (expectedFrameLength r) f)
           \<in> set (newEvents a (recognizeFrames eng a frames))"
  using assms
proof (induction frames arbitrary: a)
  case Nil
  then show ?case by simp
next
  case (Cons g frames)
  let ?b = "recogHandleAudioData eng a g"
  let ?e = "RecognizerProcess (adjustFrame (expectedFrameLength r) f)"
  have step: "recognizeFrames eng a (g # frames) = recognizeFrames eng ?b frames"
    by (simp add: recognizeFrames_def)
  obtain es1 where 1: "events ?b = events a @ es1"
    "isRecognizing (recognitionState ?b) = isRecognizing (recognitionState a)"
    "service ?b = service a"
    using recog_handler_effect [of eng a g] by blast
  obtain es2 where 2: "events (recognizeFrames eng ?b frames) = events ?b @ es2"
    using recognizeFrames_effect [of eng ?b frames] by blast
  have n: "newEvents a (recognizeFrames eng a (g # frames)) = es1 @ es2"
    using 1(1) 2 step by (simp add: newEvents_def)
  have n1: "newEvents a ?b = es1" using 1(1) by (simp add: newEvents_def)
  have n2: "newEvents ?b (recognizeFrames eng ?b frames) = es2" using 2 by (simp add: newEvents_def)
  show ?case
  proof (cases "f = g")
    case True
    have "?e \<in> set (newEvents a ?b)"
      unfolding True using Cons.prems(1,2,3) by (rule recog_handler_forwards)
    then show ?thesis unfolding n n1 by simp
  next
    case False
    with Cons.prems(4) have "f \<in> set frames" by simp
    moreover have "isRecognizing (recognitionState ?b)" "isInitialized (service ?b)"
      "recognizer (service ?b) = Some r"
      using 1 Cons.prems by simp_all
    ultimately have "?e \<in> set (newEvents ?b (recognizeFrames eng ?b frames))"
      using Cons.IH [of ?b] by blast
    then show ?thesis unfolding n n2 by simp
  qed
qed

text \<open>
  C7. While recognizing, when the recognition call for a frame throws, the handler
  records the error and passes it to the error callback when there is one; it leaves
  \<^verbatim>\<open>isRecognizing\<close> true and the recorder as it is, and does not stop the recording.
  Whatever frames follow, and whatever the engine does with them, the session is still
  recognizing and recording afterwards, and each of these frames is forwarded to the
  engine when the service has its recognizer.
\<close>

theorem recognition_failure_keeps_session:
  assumes "isRecognizing (recognitionState a)"
    and "fst (recognizeAudio eng a pcmData) = Inl msg"
    and "a' = recogHandleAudioData eng a pcmData"
  shows "recogError (recognitionState a') = Some msg \<and>
         (onErrorProvided a \<longrightarrow> OnError msg \<in> set (newEvents a a')) \<and>
         isRecognizing (recognitionState a') \<and>
         isListening (recognitionState a') = isListening (recognitionState a) \<and>
         recorder a' = recorder a \<and>
         StopRecording \<notin> set (newEvents a a') \<and>
         (\<forall>frames. isRecognizing (recognitionState (recognizeFrames eng a' frames)) \<and>
            recorder (recognizeFrames eng a' frames) = recorder a \<and>
            StopRecording \<notin> set (newEvents a' (recognizeFrames eng a' frames))) \<and>
         (\<forall>r frames. isInitialized (service a) \<and> recognizer (service a) = Some r \<longrightarrow>
            (\<forall>f\<in>set frames. RecognizerProcess (adjustFrame (expectedFrameLength r) f)
                \<in> set (newEvents a' (recognizeFrames eng a' frames))))"
proof -
  obtain es where es: "snd (recognizeAudio eng a pcmData) = a\<lparr>events := events a @ es\<rparr>"
    using recognizeAudio_effect by blast
  have r: "recognizeAudio eng a pcmData = (Inl msg, a\<lparr>events := events a @ es\<rparr>)"
    using assms(2) es by (metis prod.collapse)
  have err: "recogError (recognitionState a') = Some msg"
    using assms(1) by (simp add: assms(3) recogHandleAudioData_def r notifyError_def emit_def)
  have ev: "events a' = events a @ (es @ (if onErrorProvided a then [OnError msg] else []))"
    using assms(1) by (simp add: assms(3) recogHandleAudioData_def r notifyError_def emit_def)
  have cb: "onErrorProvided a \<longrightarrow> OnError msg \<in> set (newEvents a a')"
    unfolding newEvents_append [OF ev] by simp
  obtain es1 where 1: "events a' = events a @ es1" "StopRecording \<notin> set es1"
    "isRecognizing (recognitionState a') = isRecognizing (recognitionState a)"
    "isListening (recognitionState a') = isListening (recognitionState a)"
    "recorder a' = recorder a" "service a' = service a"
    unfolding assms(3) using recog_handler_effect [of eng a pcmData] by blast
  have ns: "StopRecording \<notin> set (newEvents a a')"
    unfolding newEvents_append [OF 1(1)] using 1(2) .
  have rec: "isRecognizing (recognitionState a')" using 1(3) assms(1) by simp
  have later: "isRecognizing (recognitionState (recognizeFrames eng a' frames)) \<and>
            recorder (recognizeFrames eng a' frames) = recorder a \<and>
            StopRecording \<notin> set (newEvents a' (recognizeFrames eng a' frames))" for frames
  proof -
    obtain es2 where 2: "events (recognizeFrames eng a' frames) = events a' @ es2"
      "StopRecording \<notin> set es2"
      "isRecognizing (recognitionState (recognizeFrames eng a' frames))
         = isRecognizing (recognitionState a')"
      "recorder (recognizeFrames eng a' frames) = recorder a'"
      using recognizeFrames_effect [of eng a' frames] by blast
    show ?thesis
      unfolding newEvents_append [OF 2(1)] using 2(2,3,4) rec 1(5) by simp
  qed
  have fwd: "isInitialized (service a) \<and> recognizer (service a) = Some r \<longrightarrow>
            (\<forall>f\<in>set frames. RecognizerProcess (adjustFrame (expectedFrameLength r) f)
                \<in> set (newEvents a' (recognizeFrames eng a' frames)))" for r frames
    using recognizeFrames_forwards [of a' r _ frames eng] rec 1(6) by simp
  from err cb rec 1(4,5) ns later fwd show ?thesis by blast
qed

lemma recognizingApp_fails:
  "isRecognizing (recognitionState recognizingApp) \<and>
   fst (recognizeAudio failingEngine recognizingApp [1, 2, 3]) =
     Inl ''Recognition failed: Error: process failed''"
proof -
  have "processResponse failingEngine (events recognizingApp)
      (adjustFrame (expectedFrameLength \<lparr>frameLength = Some 512\<rparr>) [1, 2, 3])
      = Inl ''Error: process failed''"
    by (simp add: failingEngine_def engineWith_def)
  with recognizingApp_ready show ?thesis
    by (simp add: recognizeAudio_ready recognizingApp_def idleRecognition_def
        recognizerInitialized_def newEagleService_def)
qed

theorem recognition_failure_keeps_session_witness:
  "isRecognizing (recognitionState recognizingApp) \<and>
   fst (recognizeAudio failingEngine recognizingApp [1, 2, 3]) =
     Inl ''Recognition failed: Error: process failed'' \<and>
   recogError (recognitionState (recogHandleAudioData failingEngine recognizingApp [1, 2, 3])) =
     Some ''Recognition failed: Error: process failed'' \<and>
   isRecognizing (recognitionState (recogHandleAudioData failingEngine recognizingApp [1, 2, 3])) \<and>
   recorder (recogHandleAudioData failingEngine recognizingApp [1, 2, 3]) =
     recorder recognizingApp \<and>
   StopRecording \<notin> set (newEvents recognizingApp
     (recogHandleAudioData failingEngine recognizingApp [1, 2, 3])) \<and>
   isRecognizing (recognitionState (recognizeFrames failingEngine
     (recogHandleAudioData failingEngine recognizingApp [1, 2, 3]) [[4, 5], [6]]))"
proof -
  from recognizingApp_fails
  have h1: "isRecognizing (recognitionState recognizingApp)"
    and h2: "fst (recognizeAudio failingEngine recognizingApp [1, 2, 3]) =
       Inl ''Recognition failed: Error: process failed''"
    by blast+
  show ?thesis
    using recognition_failure_keeps_session [OF h1 h2 refl] h1 h2 by blast
qed

end
